theory Spec2Isabelle
  imports Main "HOL-Library.Word" "HOL-Library.Signed_Division"
begin

unbundle bit_operations_syntax

section \<open>Data model of the tensor graph\<close>

text \<open>
  The kernels of \<^verbatim>\<open>myelin/kernel/dragnn.cc\<close> work on the tensors and steps of the Myelin
  compute graph. A tensor is a record of the metadata the kernels read and set; a step has
  an ordered list of input tensors and one of output tensors. Tensors are identified by
  their name, which is what a link or a sharing request refers to.
\<close>

datatype Type = DT_INVALID | DT_FLOAT | DT_DOUBLE | DT_INT32 | DT_INT64 | DT_BOOL

datatype Order = ANY_ORDER | ROW_MAJOR | COLUMN_MAJOR

record Tensor =
  name :: string
  type :: Type
  shape :: "int list"
  stride :: "int list"
  ref :: bool
  link :: "string option"
  shared :: "string option"
  required_order :: Order
  minalign :: "int list"
  byte_alignment :: int
  offset :: int
  byte_size :: int
  consumers :: "string list"
  constant_value :: "32 word option"

record Step =
  step_type :: string
  inputs :: "Tensor list"
  outputs :: "Tensor list"

text \<open>
  A failed \<^verbatim>\<open>CHECK\<close> aborts the process. Reading a dimension that a shape does not
  have, memory outside the tensor an address was computed for, or the value of a tensor
  that has no constant data, is undefined in the source; the model makes each a failure of
  its own.
\<close>

datatype failure = CheckFailed | OutOfRange | NoData

definition indegree :: "Step \<Rightarrow> nat" where
  "indegree step = length (inputs step)"

definition outdegree :: "Step \<Rightarrow> nat" where
  "outdegree step = length (outputs step)"

text \<open>
  A step holds its tensors by value: a kernel that updates a tensor of a step yields the
  step with that tensor replaced. \<^verbatim>\<open>Step::input(i)\<close> and \<^verbatim>\<open>Step::output(i)\<close> index
  the vectors of tensors without a bounds check. \<^verbatim>\<open>Supports\<close> tests the arity of a step
  before it reads a tensor; \<^verbatim>\<open>Adjust\<close> and \<^verbatim>\<open>Generate\<close> run on a step that
  \<^verbatim>\<open>Supports\<close> has accepted, which the properties about them assume.
\<close>

definition input :: "Step \<Rightarrow> nat \<Rightarrow> Tensor" where
  "input step i = inputs step ! i"

definition output' :: "Step \<Rightarrow> nat \<Rightarrow> Tensor" where
  "output' step i = outputs step ! i"

definition rank :: "Tensor \<Rightarrow> nat" where
  "rank t = length (shape t)"

text \<open>
  \<^verbatim>\<open>Tensor::dim(d)\<close> indexes the vector of extents without a bounds check. Where the
  source reads an extent with no rank check before it, the model tests the rank first and
  fails with \<open>OutOfRange\<close>.
\<close>

definition dim :: "Tensor \<Rightarrow> nat \<Rightarrow> int" where
  "dim t d = shape t ! d"

text \<open>Modelled from the spec: \<^verbatim>\<open>Shape::elements\<close>, the total element count of a
  shape, is the product of its extents (1 for a scalar).\<close>

definition elements :: "Tensor \<Rightarrow> int" where
  "elements t = prod_list (shape t)"

section \<open>The initializer stub\<close>

text \<open>
  The assembler is modelled by the instruction stream emitted so far, a list over an
  arbitrary instruction type. A kernel that emits nothing returns it as it was.
\<close>

definition DragnnInitializer_Supports :: "Step \<Rightarrow> bool" where
  "DragnnInitializer_Supports step = True"

definition DragnnInitializer_Generate :: "Step \<Rightarrow> 'i list \<Rightarrow> 'i list" where
  "DragnnInitializer_Generate step masm = masm"

section \<open>Type inference for the initializer operation\<close>

record Variable =
  var_name :: string
  var_type :: Type
  var_shape :: "int list"

record Flow_Operation =
  op_name :: string
  op_type :: string
  op_inputs :: "Variable list"
  op_outputs :: "Variable list"

definition op_outdegree :: "Flow_Operation \<Rightarrow> nat" where
  "op_outdegree op = length (op_outputs op)"

text \<open>
  \<^verbatim>\<open>InferTypes\<close> returns its boolean result together with the operation as it
  leaves it: the output variable is updated in place in the source.
\<close>

definition InferTypes :: "Flow_Operation \<Rightarrow> bool \<times> Flow_Operation" where
  "InferTypes op =
     (if op_type op = ''DragnnEmbeddingInitializer'' then
        (if op_outdegree op = 1 then
           (let result = op_outputs op ! 0;
                result' = result\<lparr>var_type := DT_INT32, var_shape := []\<rparr>
            in (False, op\<lparr>op_outputs := (op_outputs op)[0 := result']\<rparr>))
         else (False, op))
      else (False, op))"

section \<open>Tensor and step updates used by the kernels\<close>

definition set_input :: "Step \<Rightarrow> nat \<Rightarrow> Tensor \<Rightarrow> Step" where
  "set_input step i t = step\<lparr>inputs := (inputs step)[i := t]\<rparr>"

definition set_output :: "Step \<Rightarrow> nat \<Rightarrow> Tensor \<Rightarrow> Step" where
  "set_output step i t = step\<lparr>outputs := (outputs step)[i := t]\<rparr>"

text \<open>Modelled from the spec: \<^verbatim>\<open>Tensor::SetRequiredOrder\<close>, the required-order setter of
  the tensor accessor interface, records the memory order a kernel requires.\<close>

definition SetRequiredOrder :: "Tensor \<Rightarrow> Order \<Rightarrow> Tensor" where
  "SetRequiredOrder t order = t\<lparr>required_order := order\<rparr>"

text \<open>Modelled from the spec: \<^verbatim>\<open>Tensor::Align\<close>, the per-dimension granularity of the
  alignment requirement. A requirement only grows: each extent's granularity becomes the
  larger of the old one and the requested one.\<close>

definition Align :: "Tensor \<Rightarrow> int list \<Rightarrow> Tensor" where
  "Align t align = t\<lparr>minalign := map2 max (minalign t) align\<rparr>"

text \<open>Modelled from the spec: \<^verbatim>\<open>Tensor::SetMiniumAlignment\<close>, the minimum alignment in
  bytes of the alignment requirement. The tensor keeps the larger of its present minimum
  and the requested one.\<close>

definition SetMiniumAlignment :: "Tensor \<Rightarrow> int \<Rightarrow> Tensor" where
  "SetMiniumAlignment t alignment = t\<lparr>byte_alignment := max (byte_alignment t) alignment\<rparr>"

text \<open>Modelled from the spec: \<^verbatim>\<open>Step::AllowInPlace(input, output)\<close>, the in-place-sharing
  request. Whether the request is granted is the allocator's decision, the parameter
  \<open>grant\<close>; a granted request records on the output tensor that it shares the storage of
  the input tensor, a refused one changes nothing.\<close>

definition AllowInPlace ::
  "(Step \<Rightarrow> nat \<Rightarrow> nat \<Rightarrow> bool) \<Rightarrow> Step \<Rightarrow> nat \<Rightarrow> nat \<Rightarrow> bool \<times> Step" where
  "AllowInPlace grant step i j =
     (if grant step i j
      then (True, set_output step j ((output' step j)\<lparr>shared := Some (name (input step i))\<rparr>))
      else (False, step))"

text \<open>Modelled from the spec: \<^verbatim>\<open>Tensor::SharedWith\<close> holds when one of the two tensors
  has been given the storage of the other.\<close>

definition SharedWith :: "Tensor \<Rightarrow> Tensor \<Rightarrow> bool" where
  "SharedWith x y = (shared x = Some (name y) \<or> shared y = Some (name x))"

section \<open>Applicability and layout negotiation of the kernels\<close>

subsection \<open>DragnnCollect\<close>

text \<open>
  \<^verbatim>\<open>Supports\<close> reads \<^verbatim>\<open>f->dim(0)\<close> and \<^verbatim>\<open>f->dim(1)\<close> without a check of the rank of
  \<open>f\<close>; the second is only read when the first is 1.
\<close>

definition DragnnCollect_Supports :: "Step \<Rightarrow> failure + bool" where
  "DragnnCollect_Supports step =
     (if indegree step \<noteq> 2 \<or> outdegree step \<noteq> 1 then Inr False
      else
        let f = input step 0; M = input step 1; R = output' step 0 in
        if type f \<noteq> DT_INT32 then Inr False
        else if type M \<noteq> DT_FLOAT \<or> rank M \<noteq> 2 then Inr False
        else if type R \<noteq> DT_FLOAT \<or> rank R \<noteq> 2 then Inr False
        else if rank f < 1 then Inl OutOfRange
        else if dim f 0 \<noteq> 1 then Inr False
        else if rank f < 2 then Inl OutOfRange
        else if dim f 1 \<noteq> dim R 0 then Inr False
        else if dim R 1 \<noteq> dim M 1 + 1 then Inr False
        else Inr True)"

definition DragnnCollect_Adjust :: "Step \<Rightarrow> Step" where
  "DragnnCollect_Adjust step =
     (let step1 = set_input step 1 (SetRequiredOrder (input step 1) ROW_MAJOR)
      in set_output step1 0 (SetRequiredOrder (output' step1 0) ROW_MAJOR))"

subsection \<open>DragnnLookup\<close>

definition DragnnLookup_Supports :: "Step \<Rightarrow> bool" where
  "DragnnLookup_Supports step =
     (if indegree step \<noteq> 2 \<or> outdegree step \<noteq> 1 then False
      else
        let f = input step 0; M = input step 1; v = output' step 0 in
        if type f \<noteq> DT_INT32 then False
        else if type M \<noteq> DT_FLOAT \<or> rank M \<noteq> 2 then False
        else if type v \<noteq> DT_FLOAT \<or> rank v \<noteq> 2 then False
        else if dim v 0 \<noteq> 1 \<or> dim v 1 \<noteq> dim M 1 then False
        else True)"

definition DragnnLookup_Adjust :: "Step \<Rightarrow> Step" where
  "DragnnLookup_Adjust step = set_input step 1 (SetRequiredOrder (input step 1) ROW_MAJOR)"

subsection \<open>DragnnLookupSingle\<close>

definition DragnnLookupSingle_Supports :: "Step \<Rightarrow> bool" where
  "DragnnLookupSingle_Supports step =
     (if indegree step \<noteq> 2 \<or> outdegree step \<noteq> 1 then False
      else
        let f = input step 0; M = input step 1; v = output' step 0 in
        if type f \<noteq> DT_INT32 \<or> elements f \<noteq> 1 then False
        else if type M \<noteq> DT_FLOAT \<or> rank M \<noteq> 2 then False
        else if type v \<noteq> DT_FLOAT \<or> rank v \<noteq> 2 then False
        else if dim v 0 \<noteq> 1 \<or> dim v 1 \<noteq> dim M 1 then False
        else True)"

definition DragnnLookupSingle_Adjust :: "Step \<Rightarrow> Step" where
  "DragnnLookupSingle_Adjust step =
     (let step1 = set_output step 0 ((output' step 0)\<lparr>ref := True\<rparr>);
          step2 = set_output step1 0 ((output' step1 0)\<lparr>link := Some (name (input step1 1))\<rparr>)
      in set_input step2 1 (SetRequiredOrder (input step2 1) ROW_MAJOR))"

subsection \<open>DragnnLookupUnrolled\<close>

definition kBlockSize :: int where
  "kBlockSize = 8"

definition kMaxEmbeddingDim :: int where
  "kMaxEmbeddingDim = kBlockSize * 16"

definition sizeof_float :: int where
  "sizeof_float = 4"

text \<open>
  \<^verbatim>\<open>CPU::Enabled(AVX)\<close>, the capability query, is the parameter \<open>avx\<close>. The remainder
  of the C++ \<^verbatim>\<open>%\<close> truncates towards zero, which is \<open>smod\<close>.
\<close>

definition DragnnLookupUnrolled_Supports :: "bool \<Rightarrow> Step \<Rightarrow> bool" where
  "DragnnLookupUnrolled_Supports avx step =
     (if \<not> avx then False
      else if indegree step \<noteq> 2 \<or> outdegree step \<noteq> 1 then False
      else
        let f = input step 0; M = input step 1; v = output' step 0 in
        if type f \<noteq> DT_INT32 then False
        else if type M \<noteq> DT_FLOAT \<or> rank M \<noteq> 2 then False
        else if type v \<noteq> DT_FLOAT \<or> rank v \<noteq> 2 then False
        else if dim v 0 \<noteq> 1 \<or> dim v 1 \<noteq> dim M 1 then False
        else
          let embedding_dims = dim M 1 in
          if embedding_dims > kMaxEmbeddingDim then False
          else if embedding_dims smod kBlockSize \<noteq> 0 then False
          else True)"

definition DragnnLookupUnrolled_Adjust :: "Step \<Rightarrow> Step" where
  "DragnnLookupUnrolled_Adjust step =
     (let align = kBlockSize * sizeof_float;
          step1 = set_input step 1 (Align (input step 1) [1, kBlockSize]);
          step2 = set_input step1 1 (SetMiniumAlignment (input step1 1) align);
          step3 = set_output step2 0 (Align (output' step2 0) [1, kBlockSize]);
          step4 = set_output step3 0 (SetMiniumAlignment (output' step3 0) align)
      in set_input step4 1 (SetRequiredOrder (input step4 1) ROW_MAJOR))"

subsection \<open>DragnnConcat\<close>

text \<open>
  \<^verbatim>\<open>axis->value<int32>()\<close> reads the constant data of the last input; a tensor with no
  constant data has none to read.
\<close>

definition DragnnConcat_Supports :: "Step \<Rightarrow> failure + bool" where
  "DragnnConcat_Supports step =
     (if indegree step < 2 \<or> outdegree step \<noteq> 1 then Inr False
      else
        let n = indegree step - 1; axis = input step n in
        case constant_value axis of
          None \<Rightarrow> Inl NoData
        | Some a \<Rightarrow> if a \<noteq> 1 then Inr False else Inr True)"

definition DragnnConcat_Adjust :: "Step \<Rightarrow> Step" where
  "DragnnConcat_Adjust step = step"

subsection \<open>NoOpReshape\<close>

definition NoOpReshape_Supports :: "Step \<Rightarrow> bool" where
  "NoOpReshape_Supports step =
     (if indegree step \<noteq> 2 \<or> outdegree step \<noteq> 1 then False
      else
        let x = input step 0; y = output' step 0 in
        if type x \<noteq> type y then False
        else if elements x \<noteq> elements y then False
        else if length (consumers x) \<noteq> 1 then False
        else True)"

definition NoOpReshape_Adjust ::
  "(Step \<Rightarrow> nat \<Rightarrow> nat \<Rightarrow> bool) \<Rightarrow> Step \<Rightarrow> failure + Step" where
  "NoOpReshape_Adjust grant step =
     (let step1 = set_output step 0 ((output' step 0)\<lparr>ref := ref (input step 0)\<rparr>)
      in case AllowInPlace grant step1 0 0 of
           (True, step2) \<Rightarrow> Inr step2
         | (False, step2) \<Rightarrow> Inl CheckFailed)"

definition NoOpReshape_Generate :: "Step \<Rightarrow> 'i list \<Rightarrow> failure + 'i list" where
  "NoOpReshape_Generate step masm =
     (if SharedWith (input step 0) (output' step 0) then Inr masm else Inl CheckFailed)"

section \<open>The kernel library\<close>

datatype Kernel =
    DragnnInitializer
  | DragnnLookupSingle
  | DragnnLookupUnrolled
  | DragnnLookup
  | DragnnCollect
  | DragnnConcat
  | NoOpReshape

datatype Typer = DragnnTyper

fun Name :: "Kernel \<Rightarrow> string" where
  "Name DragnnInitializer = ''DragnnInitializerDummy''"
| "Name DragnnCollect = ''DragnnCollect''"
| "Name DragnnLookup = ''DragnnLookup''"
| "Name DragnnLookupSingle = ''DragnnLookupSingle''"
| "Name DragnnLookupUnrolled = ''DragnnLookupUnrolled''"
| "Name DragnnConcat = ''DragnnConcat''"
| "Name NoOpReshape = ''NoOpReshape''"

fun Operation :: "Kernel \<Rightarrow> string" where
  "Operation DragnnInitializer = ''DragnnEmbeddingInitializer''"
| "Operation DragnnCollect = ''Collect''"
| "Operation DragnnLookup = ''Lookup''"
| "Operation DragnnLookupSingle = ''Lookup''"
| "Operation DragnnLookupUnrolled = ''Lookup''"
| "Operation DragnnConcat = ''ConcatV2''"
| "Operation NoOpReshape = ''Reshape''"

fun Supports :: "bool \<Rightarrow> Kernel \<Rightarrow> Step \<Rightarrow> failure + bool" where
  "Supports avx DragnnInitializer step = Inr (DragnnInitializer_Supports step)"
| "Supports avx DragnnCollect step = DragnnCollect_Supports step"
| "Supports avx DragnnLookup step = Inr (DragnnLookup_Supports step)"
| "Supports avx DragnnLookupSingle step = Inr (DragnnLookupSingle_Supports step)"
| "Supports avx DragnnLookupUnrolled step = Inr (DragnnLookupUnrolled_Supports avx step)"
| "Supports avx DragnnConcat step = DragnnConcat_Supports step"
| "Supports avx NoOpReshape step = Inr (NoOpReshape_Supports step)"

record Library =
  kernels :: "Kernel list"
  typers :: "Typer list"

definition Register :: "Library \<Rightarrow> Kernel \<Rightarrow> Library" where
  "Register library k = library\<lparr>kernels := kernels library @ [k]\<rparr>"

definition RegisterTyper :: "Library \<Rightarrow> Typer \<Rightarrow> Library" where
  "RegisterTyper library typer = library\<lparr>typers := typers library @ [typer]\<rparr>"

definition RegisterDragnnKernels :: "Library \<Rightarrow> Library" where
  "RegisterDragnnKernels library =
     (let l1 = Register library DragnnInitializer;
          l2 = Register l1 DragnnLookupSingle;
          l3 = Register l2 DragnnLookupUnrolled;
          l4 = Register l3 DragnnLookup;
          l5 = Register l4 DragnnCollect;
          l6 = Register l5 DragnnConcat;
          l7 = Register l6 NoOpReshape
      in RegisterTyper l7 DragnnTyper)"

text \<open>Modelled from the spec: the registry offers, for a step, the kernels registered for
  the step's operation name in registration order, and the compiler binds the step to the
  first one whose \<^verbatim>\<open>Supports\<close> succeeds.\<close>

definition candidates :: "Library \<Rightarrow> Step \<Rightarrow> Kernel list" where
  "candidates library step = filter (\<lambda>k. Operation k = step_type step) (kernels library)"

definition select_kernel :: "bool \<Rightarrow> Library \<Rightarrow> Step \<Rightarrow> Kernel option" where
  "select_kernel avx library step =
     find (\<lambda>k. Supports avx k step = Inr True) (candidates library step)"

section \<open>The code emitted by DragnnLookupSingle\<close>

text \<open>
  The emitted instructions act on the machine at run time: the register holding the
  address of the instance block, and byte-addressed memory with 64-bit addresses.
  Multi-byte values are little-endian, as on x86-64.
\<close>

record Machine =
  instance_addr :: "64 word"
  memory :: "64 word \<Rightarrow> 8 word"

definition load32 :: "(64 word \<Rightarrow> 8 word) \<Rightarrow> 64 word \<Rightarrow> 32 word" where
  "load32 mem a =
     ucast (mem a) OR push_bit 8 (ucast (mem (a + 1))) OR push_bit 16 (ucast (mem (a + 2)))
       OR push_bit 24 (ucast (mem (a + 3)))"

definition load64 :: "(64 word \<Rightarrow> 8 word) \<Rightarrow> 64 word \<Rightarrow> 64 word" where
  "load64 mem a =
     ucast (mem a) OR push_bit 8 (ucast (mem (a + 1))) OR push_bit 16 (ucast (mem (a + 2)))
       OR push_bit 24 (ucast (mem (a + 3))) OR push_bit 32 (ucast (mem (a + 4)))
       OR push_bit 40 (ucast (mem (a + 5))) OR push_bit 48 (ucast (mem (a + 6)))
       OR push_bit 56 (ucast (mem (a + 7)))"

text \<open>
  A 64-bit store writes the eight bytes of the value at \<open>a\<close>, \<open>a + 1\<close>, ..., \<open>a + 7\<close>
  (addresses wrap around) and leaves every other byte.
\<close>

definition store64 :: "(64 word \<Rightarrow> 8 word) \<Rightarrow> 64 word \<Rightarrow> 64 word \<Rightarrow> (64 word \<Rightarrow> 8 word)" where
  "store64 mem a w =
     (\<lambda>x. if x - a < 8 then ucast (drop_bit (8 * unat (x - a)) w) else mem x)"

text \<open>Modelled from the spec: \<^verbatim>\<open>MacroAssembler::Multiply(reg, scalar)\<close> multiplies a 64-bit
  register by a constant known when the code is emitted.\<close>

definition Multiply :: "64 word \<Rightarrow> int \<Rightarrow> 64 word" where
  "Multiply reg scalar = reg * word_of_int scalar"

text \<open>
  Modelled from the spec: \<^verbatim>\<open>MacroAssembler::LoadTensorAddress(dst, tensor)\<close> loads the
  address of the storage of a tensor. Where a tensor is stored is decided by the
  allocator; the parameter \<open>storage\<close> of the kernels gives that address for a machine
  state and a tensor.

  \<^verbatim>\<open>Generate\<close> fails when the \<^verbatim>\<open>CHECK\<close> does; otherwise it yields the effect of the
  emitted instructions on the machine. \<^verbatim>\<open>movsxlq\<close> sign-extends the 32-bit feature id,
  \<^verbatim>\<open>testq\<close> and \<^verbatim>\<open>cmovq(negative, ...)\<close> replace a negative index by the OOV row
  index, and the final \<^verbatim>\<open>movq\<close> stores the row address in the output's slot of the
  instance block.
\<close>

definition DragnnLookupSingle_Generate ::
  "(Machine \<Rightarrow> Tensor \<Rightarrow> 64 word) \<Rightarrow> Step \<Rightarrow> failure + (Machine \<Rightarrow> Machine)" where
  "DragnnLookupSingle_Generate storage step =
     (let f = input step 0; M = input step 1; v = output' step 0;
          embedding_size = dim M 0 - 1
      in if ref f then Inl CheckFailed
         else Inr (\<lambda>m.
           let acc = scast (load32 (memory m) (instance_addr m + word_of_int (offset f)));
               oov = word_of_int embedding_size;
               acc = (if acc <s 0 then oov else acc);
               acc = Multiply acc (stride M ! 0);
               embeddings = storage m M;
               acc = acc + embeddings
           in m\<lparr>memory := store64 (memory m) (instance_addr m + word_of_int (offset v)) acc\<rparr>))"

section \<open>Counted loops of the emitted code\<close>

text \<open>
  The kernels emit their loops in one shape: a 64-bit counter register is cleared with
  \<^verbatim>\<open>xorq\<close>, the body follows the loop label, and the loop closes with \<^verbatim>\<open>incq\<close> on the
  counter, \<^verbatim>\<open>cmpq\<close> against the limit, an immediate, and \<^verbatim>\<open>j(not_equal, ...)\<close> back to
  the label. This is a do-while loop: the body runs before the first test, and the loop
  repeats while the incremented counter differs from the limit. It always ends, at the
  latest when the counter has wrapped around to the limit. A body that fails ends the
  loop with its failure.
\<close>

function do_while ::
  "(64 word \<Rightarrow> 's \<Rightarrow> failure + 's) \<Rightarrow> 64 word \<Rightarrow> 64 word \<Rightarrow> 's \<Rightarrow> failure + 's" where
  "do_while body limit counter s =
     (case body counter s of
        Inl e \<Rightarrow> Inl e
      | Inr s' \<Rightarrow>
          if counter + 1 \<noteq> limit then do_while body limit (counter + 1) s' else Inr s')"
  by pat_completeness auto
termination
proof (relation "measure (\<lambda>(body, limit, counter, s). unat (limit - (counter + 1)))")
  show "wf (measure (\<lambda>(body :: 64 word \<Rightarrow> 's \<Rightarrow> failure + 's, limit, counter, s :: 's).
               unat (limit - (counter + 1))))"
    by simp
next
  fix body :: "64 word \<Rightarrow> 's \<Rightarrow> failure + 's" and limit counter :: "64 word"
    and s s' :: 's
  assume "counter + 1 \<noteq> limit"
  define x where "x = limit - (counter + 1)"
  have "x \<noteq> 0"
  proof
    assume "x = 0"
    then have "limit = counter + 1"
      unfolding x_def by (simp only: right_minus_eq)
    with \<open>counter + 1 \<noteq> limit\<close> show False by simp
  qed
  then have "unat x \<noteq> 0"
    by (simp only: unat_eq_0 not_False_eq_True)
  moreover have "unat (x - 1) = unat x - 1"
    using \<open>x \<noteq> 0\<close> by (rule unat_minus_one)
  ultimately have less: "unat (x - 1) < unat x"
    by linarith
  have e: "limit - (counter + 1 + 1) = x - 1"
    unfolding x_def by (simp only: diff_diff_eq)
  have "unat (limit - (counter + 1 + 1)) < unat (limit - (counter + 1))"
    unfolding e using less unfolding x_def .
  then show "((body, limit, counter + 1, s'), (body, limit, counter, s))
      \<in> measure (\<lambda>(body, limit, counter, s). unat (limit - (counter + 1)))"
    by (simp only: in_measure prod.case)
qed

declare do_while.simps [simp del]

section \<open>Bulk copy\<close>

text \<open>Modelled from the spec: \<^verbatim>\<open>MacroAssembler::Copy(dst, ofs1, src, ofs2, size)\<close>, the
  bulk copy, copies \<open>size\<close> consecutive elements of \<open>src\<close> from offset \<open>ofs2\<close> over
  those of \<open>dst\<close> from offset \<open>ofs1\<close>. A copy that leaves either block is undefined.\<close>

definition Copy :: "'a list \<Rightarrow> nat \<Rightarrow> 'a list \<Rightarrow> nat \<Rightarrow> nat \<Rightarrow> failure + 'a list" where
  "Copy dst ofs1 src ofs2 n =
     (if ofs1 + n \<le> length dst \<and> ofs2 + n \<le> length src
      then Inr (take ofs1 dst @ take n (drop ofs2 src) @ drop (ofs1 + n) dst)
      else Inl OutOfRange)"

section \<open>The code emitted by DragnnCollect\<close>






section \<open>The code emitted by DragnnLookup\<close>

text \<open>
  The lookup kernels add floats. The model leaves the float type open: it is a type
  \<open>'a\<close> with the addition \<open>fadd\<close> of \<^verbatim>\<open>addss\<close> and of one lane of \<^verbatim>\<open>vaddps\<close>, about
  which nothing is assumed, and the value \<open>fzero\<close> whose bits are all zero. The feature
  ids are a list of 32-bit integers, the embedding matrix is a list of rows and the output
  is a list of floats.

  The body of the inner loop \<open>l3\<close>: \<^verbatim>\<open>movss\<close> loads the output element at \<open>row\<close>,
  \<^verbatim>\<open>addss\<close> adds the element of the embedding row to it, \<^verbatim>\<open>movss\<close> stores the sum back.
\<close>

definition lookup_add_elem ::
  "('a \<Rightarrow> 'a \<Rightarrow> 'a) \<Rightarrow> 'a list \<Rightarrow> 64 word \<Rightarrow> 'a list \<Rightarrow> failure + 'a list" where
  "lookup_add_elem fadd erow row out =
     (if unat row < length out \<and> unat row < length erow
      then Inr (out[unat row := fadd (out ! unat row) (erow ! unat row)])
      else Inl OutOfRange)"

text \<open>
  From the label \<open>l2\<close>: the row index in \<open>acc\<close> is multiplied by the row stride and added
  to the address of the matrix, and the inner loop adds that row to the output. The
  inner loop runs on the counter \<open>row\<close> up to the immediate \<open>embedding_dims\<close>.
\<close>

definition lookup_add_row ::
  "('a \<Rightarrow> 'a \<Rightarrow> 'a) \<Rightarrow> int \<Rightarrow> 'a list list \<Rightarrow> 64 word \<Rightarrow> 'a list \<Rightarrow> failure + 'a list" where
  "lookup_add_row fadd embedding_dims M acc out =
     (if 0 \<le> sint acc \<and> nat (sint acc) < length M
      then do_while (lookup_add_elem fadd (M ! nat (sint acc)))
             (word_of_int embedding_dims) 0 out
      else Inl OutOfRange)"

text \<open>
  The code for one feature id in \<open>acc\<close>: \<^verbatim>\<open>j(positive, &l2)\<close> takes an index that is not
  negative to \<open>l2\<close>; \<^verbatim>\<open>j(not_equal, &l4)\<close> after \<^verbatim>\<open>cmpq(acc, Immediate(-1))\<close> skips any
  negative index but \<open>-1\<close>; for \<open>-1\<close> the index becomes \<open>oov\<close>.
\<close>

definition lookup_feature ::
  "('a \<Rightarrow> 'a \<Rightarrow> 'a) \<Rightarrow> 64 word \<Rightarrow> int \<Rightarrow> 'a list list \<Rightarrow> 64 word \<Rightarrow> 'a list
     \<Rightarrow> failure + 'a list" where
  "lookup_feature fadd oov embedding_dims M acc out =
     (if \<not> acc <s 0 then lookup_add_row fadd embedding_dims M acc out
      else if acc \<noteq> - 1 then Inr out
      else lookup_add_row fadd embedding_dims M oov out)"

definition lookup_body ::
  "('a \<Rightarrow> 'a \<Rightarrow> 'a) \<Rightarrow> 64 word \<Rightarrow> int \<Rightarrow> 32 word list \<Rightarrow> 'a list list \<Rightarrow> 64 word \<Rightarrow> 'a list
     \<Rightarrow> failure + 'a list" where
  "lookup_body fadd oov embedding_dims ids M col out =
     (if unat col < length ids
      then lookup_feature fadd oov embedding_dims M (scast (ids ! unat col)) out
      else Inl OutOfRange)"

text \<open>
  \<^verbatim>\<open>Generate\<close> reads \<^verbatim>\<open>f->dim(1)\<close> with no check of the rank of \<open>f\<close>. The emitted code
  is the loop \<open>l1\<close> over the features on the counter \<open>col\<close>; no instruction before the
  loop writes to the output.
\<close>

definition DragnnLookup_Generate ::
  "('a \<Rightarrow> 'a \<Rightarrow> 'a) \<Rightarrow> Step \<Rightarrow> 32 word list \<Rightarrow> 'a list list \<Rightarrow> 'a list \<Rightarrow> failure + 'a list" where
  "DragnnLookup_Generate fadd step ids Mrows out =
     (let f = input step 0; M = input step 1; v = output' step 0;
          embedding_size = dim M 0 - 1;
          embedding_dims = dim v 1
      in if rank f < 2 then Inl OutOfRange
         else
           let num_features = dim f 1 in
           do_while (lookup_body fadd (word_of_int embedding_size) embedding_dims ids Mrows)
             (word_of_int num_features) 0 out)"

section \<open>The code emitted by DragnnLookupUnrolled\<close>

text \<open>
  The running sum is held in \<open>blocks\<close> YMM registers of 8 floats each, the list \<open>sum_regs\<close> (\<^verbatim>\<open>sum\<close> in the source).
  For a resolved row, the unrolled \<^verbatim>\<open>vaddps\<close> instructions add to register \<open>i\<close>, lane by
  lane, the 8 floats of the row from element \<open>i * kBlockSize\<close> on.
\<close>

fun unrolled_add ::
  "('a \<Rightarrow> 'a \<Rightarrow> 'a) \<Rightarrow> 'a list \<Rightarrow> nat list \<Rightarrow> 'a list list \<Rightarrow> failure + 'a list list" where
  "unrolled_add fadd erow [] sum_regs = Inr sum_regs"
| "unrolled_add fadd erow (i # rest) sum_regs =
     (if i * nat kBlockSize + nat kBlockSize \<le> length erow \<and> i < length sum_regs
      then unrolled_add fadd erow rest
             (sum_regs[i := map2 fadd (sum_regs ! i) (take (nat kBlockSize) (drop (i * nat kBlockSize) erow))])
      else Inl OutOfRange)"

definition unrolled_add_row ::
  "('a \<Rightarrow> 'a \<Rightarrow> 'a) \<Rightarrow> int \<Rightarrow> 'a list list \<Rightarrow> 64 word \<Rightarrow> 'a list list
     \<Rightarrow> failure + 'a list list" where
  "unrolled_add_row fadd blocks M acc sum_regs =
     (if 0 \<le> sint acc \<and> nat (sint acc) < length M
      then unrolled_add fadd (M ! nat (sint acc)) [0..<nat blocks] sum_regs
      else Inl OutOfRange)"

definition unrolled_feature ::
  "('a \<Rightarrow> 'a \<Rightarrow> 'a) \<Rightarrow> 64 word \<Rightarrow> int \<Rightarrow> 'a list list \<Rightarrow> 64 word \<Rightarrow> 'a list list
     \<Rightarrow> failure + 'a list list" where
  "unrolled_feature fadd oov blocks M acc sum_regs =
     (if \<not> acc <s 0 then unrolled_add_row fadd blocks M acc sum_regs
      else if acc \<noteq> - 1 then Inr sum_regs
      else unrolled_add_row fadd blocks M oov sum_regs)"

definition unrolled_body ::
  "('a \<Rightarrow> 'a \<Rightarrow> 'a) \<Rightarrow> 64 word \<Rightarrow> int \<Rightarrow> 32 word list \<Rightarrow> 'a list list \<Rightarrow> 64 word
     \<Rightarrow> 'a list list \<Rightarrow> failure + 'a list list" where
  "unrolled_body fadd oov blocks ids M col sum_regs =
     (if unat col < length ids
      then unrolled_feature fadd oov blocks M (scast (ids ! unat col)) sum_regs
      else Inl OutOfRange)"

text \<open>After the loop, \<^verbatim>\<open>vmovaps\<close> stores register \<open>i\<close> over the 8 floats of the output
  from element \<open>i * kBlockSize\<close> on.\<close>

fun unrolled_store :: "nat list \<Rightarrow> 'a list list \<Rightarrow> 'a list \<Rightarrow> failure + 'a list" where
  "unrolled_store [] sum_regs out = Inr out"
| "unrolled_store (i # rest) sum_regs out =
     (if i < length sum_regs
      then (case Copy out (i * nat kBlockSize) (sum_regs ! i) 0 (nat kBlockSize) of
              Inl e \<Rightarrow> Inl e
            | Inr out' \<Rightarrow> unrolled_store rest sum_regs out')
      else Inl OutOfRange)"

text \<open>
  \<^verbatim>\<open>Generate\<close> clears the registers with \<^verbatim>\<open>vxorps\<close>, which leaves all bits zero in every
  lane, runs the loop over the features and stores the registers. The C++ division
  \<^verbatim>\<open>embedding_dims / kBlockSize\<close> truncates towards zero, which is \<open>sdiv\<close>.
\<close>

definition DragnnLookupUnrolled_Generate ::
  "('a \<Rightarrow> 'a \<Rightarrow> 'a) \<Rightarrow> 'a \<Rightarrow> Step \<Rightarrow> 32 word list \<Rightarrow> 'a list list \<Rightarrow> 'a list
     \<Rightarrow> failure + 'a list" where
  "DragnnLookupUnrolled_Generate fadd fzero step ids Mrows out =
     (let f = input step 0; M = input step 1; v = output' step 0;
          embedding_size = dim M 0 - 1;
          embedding_dims = dim v 1
      in if rank f < 2 then Inl OutOfRange
         else
           let num_features = dim f 1;
               blocks = embedding_dims sdiv kBlockSize;
               sum_regs = replicate (nat blocks) (replicate (nat kBlockSize) fzero)
           in case do_while (unrolled_body fadd (word_of_int embedding_size) blocks ids Mrows)
                     (word_of_int num_features) 0 sum_regs of
                Inl e \<Rightarrow> Inl e
              | Inr sum_out \<Rightarrow> unrolled_store [0..<nat blocks] sum_out out)"

text \<open>
  The sum of the resolved embedding rows, in the words of the description of the lookup
  operation: starting from an accumulator, for each feature id in turn, the row at that
  index is added element by element if the id is not negative, the trailing OOV row is
  added if the id is \<open>-1\<close>, and any other negative id contributes nothing.
\<close>

definition add_resolved_row ::
  "('a \<Rightarrow> 'a \<Rightarrow> 'a) \<Rightarrow> 'a list list \<Rightarrow> 'a list \<Rightarrow> 32 word \<Rightarrow> 'a list" where
  "add_resolved_row fadd M acc fid =
     (if 0 \<le> sint fid then map2 fadd acc (M ! nat (sint fid))
      else if fid = - 1 then map2 fadd acc (last M)
      else acc)"

definition sum_resolved_rows ::
  "('a \<Rightarrow> 'a \<Rightarrow> 'a) \<Rightarrow> 'a list list \<Rightarrow> 'a list \<Rightarrow> 32 word list \<Rightarrow> 'a list" where
  "sum_resolved_rows fadd M acc ids = foldl (add_resolved_row fadd M) acc ids"

text \<open>
  The contents of \<open>b\<close> vector registers of 8 lanes that together hold a vector of
  \<open>8 * b\<close> floats, register \<open>i\<close> holding the elements from \<open>8 * i\<close> on.
\<close>

definition blocks_of :: "nat \<Rightarrow> 'a list \<Rightarrow> 'a list list" where
  "blocks_of b v = map (\<lambda>i. take 8 (drop (i * 8) v)) [0..<b]"

section \<open>The code emitted by DragnnConcat\<close>

text \<open>
  \<^verbatim>\<open>Generate\<close> walks over the data inputs \<open>0, ..., n - 1\<close>, emitting for each a copy of
  its bytes to the running offset in the output, and then checks the final offset against
  the size of the output. The running offset and the size of each input are C++ \<^verbatim>\<open>int\<close>s,
  32-bit words here: the declared byte size of an input is cut to 32 bits when it is
  assigned to \<^verbatim>\<open>size\<close>, and \<^verbatim>\<open>offset += size\<close> wraps around. \<^verbatim>\<open>CHECK_EQ\<close> compares the value
  of the offset, as a signed number, with the declared byte size of the output. The loop is
  modelled with the emitted copies applied to the contents \<open>srcs\<close> of the data inputs and
  \<open>dst\<close> of the output; a copy at a negative offset or of a negative size leaves the
  output, and a failed \<^verbatim>\<open>CHECK\<close> aborts before any emitted code can run.
\<close>

fun concat_loop ::
  "Step \<Rightarrow> 8 word list list \<Rightarrow> nat list \<Rightarrow> 32 word \<Rightarrow> failure + 8 word list
     \<Rightarrow> 32 word \<times> (failure + 8 word list)" where
  "concat_loop step srcs [] offset' dst = (offset', dst)"
| "concat_loop step srcs (i # rest) offset' dst =
     (let size' = (word_of_int (byte_size (input step i)) :: 32 word);
          dst' = (case dst of
                    Inl e \<Rightarrow> Inl e
                  | Inr d \<Rightarrow>
                      if i < length srcs \<and> 0 \<le> sint offset' \<and> 0 \<le> sint size'
                      then Copy d (nat (sint offset')) (srcs ! i) 0 (nat (sint size'))
                      else Inl OutOfRange)
      in concat_loop step srcs rest (offset' + size') dst')"

definition DragnnConcat_Generate ::
  "Step \<Rightarrow> 8 word list list \<Rightarrow> 8 word list \<Rightarrow> failure + 8 word list" where
  "DragnnConcat_Generate step srcs dst =
     (let n = indegree step - 1;
          (offset', dst') = concat_loop step srcs [0..<n] 0 (Inr dst)
      in if sint offset' \<noteq> byte_size (output' step 0) then Inl CheckFailed else dst')"

text \<open>The sum of the declared byte sizes of the first \<open>k\<close> inputs.\<close>

definition input_bytes :: "Step \<Rightarrow> nat \<Rightarrow> int" where
  "input_bytes step k = sum_list (map (\<lambda>i. byte_size (input step i)) [0..<k])"

section \<open>Example tensors\<close>

definition tensor :: "string \<Rightarrow> Type \<Rightarrow> int list \<Rightarrow> Tensor" where
  "tensor nm ty shp =
     \<lparr>name = nm, type = ty, shape = shp, stride = [], ref = False, link = None,
      shared = None, required_order = ANY_ORDER, minalign = map (\<lambda>d. 1) shp,
      byte_alignment = 1, offset = 0, byte_size = 0, consumers = [],
      constant_value = None\<rparr>"

definition example_lookup_step :: Step where
  "example_lookup_step =
     \<lparr>step_type = ''Lookup'',
      inputs = [tensor ''f'' DT_INT32 [1, 3],
                (tensor ''M'' DT_FLOAT [5, 16])\<lparr>stride := [64, 4]\<rparr>],
      outputs = [(tensor ''v'' DT_FLOAT [1, 16])\<lparr>offset := 16\<rparr>]\<rparr>"

definition example_single_step :: Step where
  "example_single_step =
     \<lparr>step_type = ''Lookup'',
      inputs = [(tensor ''f'' DT_INT32 [1, 1])\<lparr>offset := 8\<rparr>,
                (tensor ''M'' DT_FLOAT [5, 16])\<lparr>stride := [64, 4]\<rparr>],
      outputs = [(tensor ''v'' DT_FLOAT [1, 16])\<lparr>offset := 16\<rparr>]\<rparr>"

text \<open>A machine whose instance block starts at \<open>0x1000\<close> and holds a feature id made
  of four equal bytes at offset 8; the embedding matrix is stored at \<open>0x2000\<close>.\<close>

definition example_machine :: "8 word \<Rightarrow> Machine" where
  "example_machine b =
     \<lparr>instance_addr = 0x1000,
      memory = (\<lambda>x. 0)(0x1008 := b, 0x1009 := b, 0x100A := b, 0x100B := b)\<rparr>"

definition example_storage :: "Machine \<Rightarrow> Tensor \<Rightarrow> 64 word" where
  "example_storage m t =
     (if name t = ''M'' then 0x2000 else instance_addr m + word_of_int (offset t))"

definition example_reshape_step :: Step where
  "example_reshape_step =
     \<lparr>step_type = ''Reshape'',
      inputs = [(tensor ''x'' DT_FLOAT [2, 3])\<lparr>consumers := [''reshape'']\<rparr>,
                tensor ''shape'' DT_INT32 [1]],
      outputs = [tensor ''y'' DT_FLOAT [6]]\<rparr>"

definition reshape_without_shape_input :: Step where
  "reshape_without_shape_input =
     \<lparr>step_type = ''Reshape'',
      inputs = [(tensor ''x'' DT_FLOAT [2, 3])\<lparr>consumers := [''reshape'']\<rparr>],
      outputs = [tensor ''y'' DT_FLOAT [6]]\<rparr>"

definition always_grant :: "Step \<Rightarrow> nat \<Rightarrow> nat \<Rightarrow> bool" where
  "always_grant step i j = True"



text \<open>Four data inputs of \<open>2 ^ 30\<close> bytes each and an output of declared size 0.\<close>

definition concat_wrapping_step :: Step where
  "concat_wrapping_step =
     \<lparr>step_type = ''ConcatV2'',
      inputs = [(tensor ''a'' DT_FLOAT [1, 1])\<lparr>byte_size := 2 ^ 30\<rparr>,
                (tensor ''b'' DT_FLOAT [1, 1])\<lparr>byte_size := 2 ^ 30\<rparr>,
                (tensor ''c'' DT_FLOAT [1, 1])\<lparr>byte_size := 2 ^ 30\<rparr>,
                (tensor ''d'' DT_FLOAT [1, 1])\<lparr>byte_size := 2 ^ 30\<rparr>,
                (tensor ''axis'' DT_INT32 [])\<lparr>byte_size := 4, constant_value := Some 1\<rparr>],
      outputs = [(tensor ''e'' DT_FLOAT [1, 4])\<lparr>byte_size := 0\<rparr>]\<rparr>"




text \<open>
  A lookup step with three features and an embedding matrix of two vocabulary rows and the
  OOV row, of dimension 8. The floats of the examples are small integers, which binary32
  represents and adds exactly; they are written as integers with integer addition.
\<close>

definition example_lookup8_step :: Step where
  "example_lookup8_step =
     \<lparr>step_type = ''Lookup'',
      inputs = [tensor ''f'' DT_INT32 [1, 3], tensor ''M'' DT_FLOAT [3, 8]],
      outputs = [tensor ''v'' DT_FLOAT [1, 8]]\<rparr>"

definition example_embeddings :: "int list list" where
  "example_embeddings =
     [[1, 2, 3, 4, 5, 6, 7, 8],
      [10, 20, 30, 40, 50, 60, 70, 80],
      [100, 200, 300, 400, 500, 600, 700, 800]]"

section \<open>Properties\<close>

subsection \<open>Auxiliary facts\<close>

lemma find_first_match:
  assumes "xs \<noteq> []" and "\<And>x. x \<in> set xs \<Longrightarrow> x = a" and "P a"
  shows "find P xs = Some a"
proof (cases xs)
  case Nil
  with assms(1) show ?thesis by simp
next
  case (Cons x rest)
  with assms(2) have "x = a" by simp
  with Cons assms(3) show ?thesis by simp
qed

lemma Operation_initializer:
  "Operation k = ''DragnnEmbeddingInitializer'' \<longleftrightarrow> k = DragnnInitializer"
  by (cases k) simp_all

lemma kernels_RegisterDragnnKernels:
  "kernels (RegisterDragnnKernels library) =
     kernels library @ [DragnnInitializer, DragnnLookupSingle, DragnnLookupUnrolled,
       DragnnLookup, DragnnCollect, DragnnConcat, NoOpReshape]"
  by (simp add: RegisterDragnnKernels_def Register_def RegisterTyper_def Let_def)

lemmas step_simps = indegree_def outdegree_def input_def output'_def rank_def dim_def
  elements_def set_input_def set_output_def

lemma smod_8_dvd: "(a::int) smod 8 = 0 \<longleftrightarrow> 8 dvd a"
proof -
  have "a smod 8 = sgn a * (\<bar>a\<bar> mod 8)"
    by (simp add: signed_modulo_int_def)
  moreover have "(\<bar>a\<bar> mod 8 = 0) = (8 dvd a)"
    by (simp add: dvd_eq_mod_eq_0 [symmetric])
  moreover have "8 dvd a" if "a = 0"
    using that by simp
  ultimately show ?thesis
    by (auto simp: sgn_if)
qed

text \<open>A 64-bit value stored is the value loaded from the same address, and a store leaves
  every byte outside its eight.\<close>

lemma load64_store64: "load64 (store64 mem a w) a = w"
  apply (simp add: load64_def store64_def)
  apply (rule bit_word_eqI)
  apply (simp add: bit_simps cong: conj_cong)
  apply (case_tac "bit w n")
   apply simp_all
  apply (simp add: less_diff_conv2 cong: conj_cong)
  apply linarith
  done

lemma store64_frame: "\<not> x - a < 8 \<Longrightarrow> store64 mem a w x = mem x"
  by (simp add: store64_def)

lemma sint_scast_32_64: "sint (scast (w :: 32 word) :: 64 word) = sint w"
  by (rule sint_up_scast) (simp add: is_up)

lemma Supports_single_arity:
  "DragnnLookupSingle_Supports step \<Longrightarrow> indegree step = 2 \<and> outdegree step = 1"
  by (simp add: DragnnLookupSingle_Supports_def split: if_splits)

lemma example_single_step_Supports: "DragnnLookupSingle_Supports example_single_step"
  by (simp add: DragnnLookupSingle_Supports_def example_single_step_def tensor_def
        step_simps Let_def)

lemma example_load32: "load32 (memory (example_machine 255)) 0x1008 = - 1"
  by (simp add: load32_def example_machine_def)

subsection \<open>The initializer kernel and the type inference hook\<close>

text \<open>
  Claim C10. The initializer kernel accepts every step: its \<^verbatim>\<open>Supports\<close> is true whatever
  the arity, types, ranks and shapes of the step, and its \<^verbatim>\<open>Generate\<close> leaves the emitted
  instruction stream as it was. Hence, after \<^verbatim>\<open>RegisterDragnnKernels\<close>, a step carrying the
  operation name \<^verbatim>\<open>DragnnEmbeddingInitializer\<close> is bound to this kernel, on any hardware and
  whatever the library held before.
\<close>

theorem DragnnInitializer_accepts_every_step:
  "DragnnInitializer_Supports step = True
   \<and> DragnnInitializer_Generate step masm = masm
   \<and> select_kernel avx (RegisterDragnnKernels library)
        (step\<lparr>step_type := ''DragnnEmbeddingInitializer''\<rparr>) = Some DragnnInitializer"
proof -
  let ?step = "step\<lparr>step_type := ''DragnnEmbeddingInitializer''\<rparr>"
  let ?cs = "candidates (RegisterDragnnKernels library) ?step"
  have all_init: "\<And>k. k \<in> set ?cs \<Longrightarrow> k = DragnnInitializer"
    by (simp add: candidates_def Operation_initializer)
  have "DragnnInitializer \<in> set ?cs"
    by (simp add: candidates_def kernels_RegisterDragnnKernels)
  then have nonempty: "?cs \<noteq> []" by auto
  have "Supports avx DragnnInitializer ?step = Inr True"
    by (simp add: DragnnInitializer_Supports_def)
  with nonempty all_init
  have "find (\<lambda>k. Supports avx k ?step = Inr True) ?cs = Some DragnnInitializer"
    by (intro find_first_match) auto
  then show ?thesis
    by (simp add: select_kernel_def DragnnInitializer_Supports_def
        DragnnInitializer_Generate_def)
qed

text \<open>
  Claim C9. For every operation, \<^verbatim>\<open>InferTypes\<close> returns false. If the operation has type
  \<^verbatim>\<open>DragnnEmbeddingInitializer\<close> and exactly one output, that output gets the type
  \<^verbatim>\<open>DT_INT32\<close> and the empty (scalar) shape, and nothing else of the operation changes;
  any other operation is left as it was.
\<close>

theorem InferTypes_initializer_output:
  "fst (InferTypes op) = False
   \<and> snd (InferTypes op) =
       (if op_type op = ''DragnnEmbeddingInitializer'' \<and> op_outdegree op = 1
        then op\<lparr>op_outputs := [(op_outputs op ! 0)\<lparr>var_type := DT_INT32, var_shape := []\<rparr>]\<rparr>
        else op)"
proof -
  have "xs[0 := y] = [y]" if "length xs = 1" for xs :: "Variable list" and y
    using that by (cases xs) simp_all
  then show ?thesis
    by (simp add: InferTypes_def op_outdegree_def Let_def)
qed

subsection \<open>Applicability and alignment of the unrolled lookup kernel\<close>

text \<open>
  Claim C5. \<^verbatim>\<open>DragnnLookupUnrolled::Supports\<close> is true exactly when AVX is enabled, the
  checks of the scalar kernel \<^verbatim>\<open>DragnnLookup::Supports\<close> pass, and the embedding dimension
  \<^verbatim>\<open>M->dim(1)\<close> is a multiple of 8 and at most \<open>8 * 16 = 128\<close>. On a supported step,
  \<^verbatim>\<open>Adjust\<close> raises the minimum alignment of the embedding matrix and of the output
  vector to \<open>8 * sizeof(float) = 32\<close> bytes.
\<close>

theorem DragnnLookupUnrolled_applicability:
  "(DragnnLookupUnrolled_Supports avx step \<longleftrightarrow>
      avx \<and> DragnnLookup_Supports step
      \<and> 8 dvd dim (input step 1) 1 \<and> dim (input step 1) 1 \<le> 128)
   \<and> (DragnnLookupUnrolled_Supports avx step \<longrightarrow>
        byte_alignment (input (DragnnLookupUnrolled_Adjust step) 1)
          = max (byte_alignment (input step 1)) 32
        \<and> byte_alignment (output' (DragnnLookupUnrolled_Adjust step) 0)
          = max (byte_alignment (output' step 0)) 32
        \<and> 32 \<le> byte_alignment (input (DragnnLookupUnrolled_Adjust step) 1)
        \<and> 32 \<le> byte_alignment (output' (DragnnLookupUnrolled_Adjust step) 0))"
proof -
  have sup: "DragnnLookupUnrolled_Supports avx step \<longleftrightarrow>
      avx \<and> DragnnLookup_Supports step
      \<and> 8 dvd dim (input step 1) 1 \<and> dim (input step 1) 1 \<le> 128"
    by (simp add: DragnnLookupUnrolled_Supports_def DragnnLookup_Supports_def Let_def
        kMaxEmbeddingDim_def kBlockSize_def smod_8_dvd not_less)
  have adj: "byte_alignment (input (DragnnLookupUnrolled_Adjust step) 1)
          = max (byte_alignment (input step 1)) 32
        \<and> byte_alignment (output' (DragnnLookupUnrolled_Adjust step) 0)
          = max (byte_alignment (output' step 0)) 32"
    if "indegree step = 2" and "outdegree step = 1"
    using that
    by (simp add: DragnnLookupUnrolled_Adjust_def Let_def step_simps Align_def
        SetMiniumAlignment_def SetRequiredOrder_def kBlockSize_def sizeof_float_def)
  have "indegree step = 2 \<and> outdegree step = 1" if "DragnnLookup_Supports step"
    using that by (simp add: DragnnLookup_Supports_def split: if_splits)
  with sup adj show ?thesis
    by (simp del: max.absorb1 max.absorb2 max.absorb3 max.absorb4)
qed

theorem DragnnLookupUnrolled_applicability_witness:
  "DragnnLookupUnrolled_Supports True example_lookup_step
   \<and> byte_alignment (input (DragnnLookupUnrolled_Adjust example_lookup_step) 1) = 32
   \<and> byte_alignment (output' (DragnnLookupUnrolled_Adjust example_lookup_step) 0) = 32"
proof -
  have s: "DragnnLookupUnrolled_Supports True example_lookup_step"
    by (simp add: DragnnLookupUnrolled_Supports_def example_lookup_step_def tensor_def
        step_simps Let_def kMaxEmbeddingDim_def kBlockSize_def signed_modulo_int_def)
  have a: "byte_alignment (input example_lookup_step 1) = 1"
          "byte_alignment (output' example_lookup_step 0) = 1"
    by (simp_all add: example_lookup_step_def tensor_def step_simps)
  from DragnnLookupUnrolled_applicability [of True example_lookup_step] s a
  show ?thesis by simp
qed

subsection \<open>The single-feature reference kernel\<close>

text \<open>
  Claim C8. On a step that \<^verbatim>\<open>DragnnLookupSingle::Supports\<close> accepts, \<^verbatim>\<open>Generate\<close> fails,
  and then with the failed \<^verbatim>\<open>CHECK\<close>, if and only if the feature-id input is a reference
  tensor; when it is not, \<^verbatim>\<open>Generate\<close> yields emitted code.
\<close>

theorem DragnnLookupSingle_check_fails_iff_ref:
  assumes "DragnnLookupSingle_Supports step"
  shows "(DragnnLookupSingle_Generate storage step = Inl CheckFailed) = ref (input step 0)
    \<and> ((\<exists>e. DragnnLookupSingle_Generate storage step = Inl e) = ref (input step 0))
    \<and> ((\<exists>code. DragnnLookupSingle_Generate storage step = Inr code) = (\<not> ref (input step 0)))"
  by (simp add: DragnnLookupSingle_Generate_def Let_def)

theorem DragnnLookupSingle_check_fails_iff_ref_witness:
  "DragnnLookupSingle_Supports example_single_step
   \<and> \<not> ref (input example_single_step 0)
   \<and> (\<exists>code. DragnnLookupSingle_Generate example_storage example_single_step = Inr code)
   \<and> DragnnLookupSingle_Supports
        (set_input example_single_step 0 ((input example_single_step 0)\<lparr>ref := True\<rparr>))
   \<and> DragnnLookupSingle_Generate example_storage
        (set_input example_single_step 0 ((input example_single_step 0)\<lparr>ref := True\<rparr>))
       = Inl CheckFailed"
proof -
  let ?s = "set_input example_single_step 0 ((input example_single_step 0)\<lparr>ref := True\<rparr>)"
  have s2: "DragnnLookupSingle_Supports ?s"
    by (simp add: DragnnLookupSingle_Supports_def example_single_step_def tensor_def
        step_simps Let_def)
  have r1: "\<not> ref (input example_single_step 0)"
    by (simp add: example_single_step_def tensor_def step_simps)
  have r2: "ref (input ?s 0)"
    by (simp add: example_single_step_def tensor_def step_simps)
  from DragnnLookupSingle_check_fails_iff_ref [OF example_single_step_Supports, of example_storage]
    DragnnLookupSingle_check_fails_iff_ref [OF s2, of example_storage]
    example_single_step_Supports s2 r1 r2
  show ?thesis by simp
qed

text \<open>
  Claim C3. On a supported step whose feature-id input is not a reference, let \<open>fid\<close> be
  the 32-bit feature id in the input's slot of the instance block. The emitted code stores
  in the output's slot the 64-bit address
  \<open>base + row_index * row_stride\<close> (in 64-bit arithmetic), where \<open>base\<close> is the address
  of the embedding matrix, \<open>row_stride\<close> is \<^verbatim>\<open>M->stride(0)\<close>, and \<open>row_index\<close> is
  \<open>fid\<close> if \<open>fid \<ge> 0\<close> and the OOV row \<^verbatim>\<open>M->dim(0) - 1\<close> if \<open>fid\<close> is negative, in
  particular if \<open>fid = -1\<close>. The code changes no byte of memory outside the eight bytes of
  that slot, so no byte of the embedding matrix is copied. \<^verbatim>\<open>Adjust\<close> marks the output as
  a reference and links it to the embedding matrix.
\<close>

theorem DragnnLookupSingle_stores_row_address:
  assumes sup: "DragnnLookupSingle_Supports step"
    and noref: "\<not> ref (input step 0)"
    and fid: "load32 (memory m) (instance_addr m + word_of_int (offset (input step 0))) = fid"
  shows "(\<exists>code. DragnnLookupSingle_Generate storage step = Inr code
     \<and> instance_addr (code m) = instance_addr m
     \<and> load64 (memory (code m)) (instance_addr m + word_of_int (offset (output' step 0)))
         = storage m (input step 1)
           + word_of_int (if 0 \<le> sint fid then sint fid else dim (input step 1) 0 - 1)
             * word_of_int (stride (input step 1) ! 0)
     \<and> (\<forall>a. \<not> a - (instance_addr m + word_of_int (offset (output' step 0))) < 8
            \<longrightarrow> memory (code m) a = memory m a))
   \<and> ref (output' (DragnnLookupSingle_Adjust step) 0)
   \<and> link (output' (DragnnLookupSingle_Adjust step) 0) = Some (name (input step 1))"
proof -
  have gen: "\<exists>code. DragnnLookupSingle_Generate storage step = Inr code
     \<and> instance_addr (code m) = instance_addr m
     \<and> load64 (memory (code m)) (instance_addr m + word_of_int (offset (output' step 0)))
         = storage m (input step 1)
           + word_of_int (if 0 \<le> sint fid then sint fid else dim (input step 1) 0 - 1)
             * word_of_int (stride (input step 1) ! 0)
     \<and> (\<forall>a. \<not> a - (instance_addr m + word_of_int (offset (output' step 0))) < 8
            \<longrightarrow> memory (code m) a = memory m a)"
    using noref fid
    by (simp add: DragnnLookupSingle_Generate_def Let_def load64_store64 store64_frame
       Multiply_def word_sless_alt sint_scast_32_64 not_less)
  from Supports_single_arity [OF sup]
  have adj: "ref (output' (DragnnLookupSingle_Adjust step) 0)
     \<and> link (output' (DragnnLookupSingle_Adjust step) 0) = Some (name (input step 1))"
    by (simp add: DragnnLookupSingle_Adjust_def Let_def step_simps SetRequiredOrder_def)
  from gen adj show ?thesis by blast
qed

theorem DragnnLookupSingle_stores_row_address_witness:
  "DragnnLookupSingle_Supports example_single_step
   \<and> \<not> ref (input example_single_step 0)
   \<and> load32 (memory (example_machine 255)) 0x1008 = - 1
   \<and> (\<exists>code. DragnnLookupSingle_Generate example_storage example_single_step = Inr code
        \<and> load64 (memory (code (example_machine 255))) 0x1010 = 0x2100)
   \<and> link (output' (DragnnLookupSingle_Adjust example_single_step) 0) = Some ''M''"
proof -
  have r1: "\<not> ref (input example_single_step 0)"
    by (simp add: example_single_step_def tensor_def step_simps)
  have f: "load32 (memory (example_machine 255))
     (instance_addr (example_machine 255) + word_of_int (offset (input example_single_step 0))) = - 1"
    by (simp add: load32_def example_machine_def example_single_step_def tensor_def step_simps)
  have vals: "instance_addr (example_machine 255) + word_of_int (offset (output' example_single_step 0)) = 0x1010"
    "example_storage (example_machine 255) (input example_single_step 1) = 0x2000"
    "dim (input example_single_step 1) 0 = 5"
    "stride (input example_single_step 1) ! 0 = 64"
    "name (input example_single_step 1) = ''M''"
    by (simp_all add: example_machine_def example_single_step_def tensor_def step_simps
        example_storage_def)
  from DragnnLookupSingle_stores_row_address [OF example_single_step_Supports r1 f, of example_storage]
  obtain code where c: "DragnnLookupSingle_Generate example_storage example_single_step = Inr code"
    and l: "load64 (memory (code (example_machine 255)))
        (instance_addr (example_machine 255) + word_of_int (offset (output' example_single_step 0)))
       = example_storage (example_machine 255) (input example_single_step 1)
           + word_of_int (if 0 \<le> sint (- 1 :: 32 word) then sint (- 1 :: 32 word)
                          else dim (input example_single_step 1) 0 - 1)
             * word_of_int (stride (input example_single_step 1) ! 0)"
    and k: "link (output' (DragnnLookupSingle_Adjust example_single_step) 0)
       = Some (name (input example_single_step 1))"
    by blast
  from l have "load64 (memory (code (example_machine 255))) 0x1010 = 0x2100"
    by (simp only: vals) simp
  with c k vals(5) example_single_step_Supports r1 example_load32
  show ?thesis by simp
qed

subsection \<open>The reshape elision kernel\<close>

text \<open>
  Claim C7 fails as stated. A step with exactly one input and one output, of the same type
  and element count, whose input has a single consumer, is not supported:
  \<^verbatim>\<open>NoOpReshape::Supports\<close> requires two inputs, the tensor to reshape and the new shape.
\<close>

theorem NoOpReshape_one_pair_counterexample:
  "indegree reshape_without_shape_input = 1
   \<and> outdegree reshape_without_shape_input = 1
   \<and> type (input reshape_without_shape_input 0) = type (output' reshape_without_shape_input 0)
   \<and> elements (input reshape_without_shape_input 0)
       = elements (output' reshape_without_shape_input 0)
   \<and> length (consumers (input reshape_without_shape_input 0)) = 1
   \<and> \<not> NoOpReshape_Supports reshape_without_shape_input"
  by (simp add: reshape_without_shape_input_def tensor_def step_simps NoOpReshape_Supports_def)

text \<open>
  Claim C7, amended. \<^verbatim>\<open>NoOpReshape::Supports\<close> is true exactly for the steps with two
  inputs and one output where the first input and the output have the same element type
  and the same number of elements and the first input has exactly one consumer. On such a
  step \<^verbatim>\<open>Adjust\<close> copies the reference flag of the input to the output and requests
  in-place sharing of the output with the input; it fails with the failed \<^verbatim>\<open>CHECK\<close> when
  the request is refused, and after a granted request \<^verbatim>\<open>Generate\<close> succeeds.
  \<^verbatim>\<open>Generate\<close> emits no instruction: it returns the instruction stream unchanged when
  input and output share storage, and fails with the failed \<^verbatim>\<open>CHECK\<close> otherwise.
\<close>

theorem NoOpReshape_applicability:
  "(NoOpReshape_Supports step \<longleftrightarrow>
      indegree step = 2 \<and> outdegree step = 1
      \<and> type (input step 0) = type (output' step 0)
      \<and> elements (input step 0) = elements (output' step 0)
      \<and> length (consumers (input step 0)) = 1)
   \<and> (NoOpReshape_Supports step \<longrightarrow>
        (let y = (output' step 0)\<lparr>ref := ref (input step 0)\<rparr> in
         NoOpReshape_Adjust grant step =
           (if grant (set_output step 0 y) 0 0
            then Inr (set_output step 0 (y\<lparr>shared := Some (name (input step 0))\<rparr>))
            else Inl CheckFailed))
        \<and> (\<forall>step'. NoOpReshape_Adjust grant step = Inr step' \<longrightarrow>
              ref (output' step' 0) = ref (input step 0)
              \<and> inputs step' = inputs step
              \<and> NoOpReshape_Generate step' masm = Inr masm))
   \<and> NoOpReshape_Generate step masm =
        (if SharedWith (input step 0) (output' step 0) then Inr masm else Inl CheckFailed)"
proof -
  have sup: "NoOpReshape_Supports step \<longleftrightarrow>
      indegree step = 2 \<and> outdegree step = 1
      \<and> type (input step 0) = type (output' step 0)
      \<and> elements (input step 0) = elements (output' step 0)
      \<and> length (consumers (input step 0)) = 1"
    by (auto simp add: NoOpReshape_Supports_def Let_def)
  have adj: "NoOpReshape_Adjust grant step =
           (if grant (set_output step 0 ((output' step 0)\<lparr>ref := ref (input step 0)\<rparr>)) 0 0
            then Inr (set_output step 0
                   ((output' step 0)\<lparr>ref := ref (input step 0),
                                        shared := Some (name (input step 0))\<rparr>))
            else Inl CheckFailed)"
    if "indegree step = 2" "outdegree step = 1"
    using that
    by (simp add: NoOpReshape_Adjust_def AllowInPlace_def Let_def step_simps)
  have post: "ref (output' step' 0) = ref (input step 0) \<and> inputs step' = inputs step
              \<and> NoOpReshape_Generate step' masm = Inr masm"
    if "indegree step = 2" "outdegree step = 1" "NoOpReshape_Adjust grant step = Inr step'"
    for step'
    using that(3) unfolding adj [OF that(1,2)] using that(1,2)
    by (auto simp add: step_simps NoOpReshape_Generate_def SharedWith_def split: if_splits)
  have gen: "NoOpReshape_Generate step masm =
        (if SharedWith (input step 0) (output' step 0) then Inr masm else Inl CheckFailed)"
    by (simp add: NoOpReshape_Generate_def)
  from sup adj post gen show ?thesis
    by (simp add: Let_def)
qed

theorem NoOpReshape_applicability_witness:
  "NoOpReshape_Supports example_reshape_step
   \<and> (\<exists>step'. NoOpReshape_Adjust always_grant example_reshape_step = Inr step'
        \<and> shared (output' step' 0) = Some ''x''
        \<and> NoOpReshape_Generate step' ([] :: nat list) = Inr [])"
proof -
  have s: "NoOpReshape_Supports example_reshape_step"
    by (simp add: NoOpReshape_Supports_def example_reshape_step_def tensor_def step_simps)
  let ?y = "(output' example_reshape_step 0)\<lparr>ref := ref (input example_reshape_step 0)\<rparr>"
  let ?s' = "set_output example_reshape_step 0
               (?y\<lparr>shared := Some (name (input example_reshape_step 0))\<rparr>)"
  from NoOpReshape_applicability [of example_reshape_step always_grant "[] :: nat list"] s
  have a: "NoOpReshape_Adjust always_grant example_reshape_step = Inr ?s'"
    and g: "\<forall>step'. NoOpReshape_Adjust always_grant example_reshape_step = Inr step' \<longrightarrow>
              NoOpReshape_Generate step' ([] :: nat list) = Inr []"
    by (simp_all add: Let_def always_grant_def)
  have "shared (output' ?s' 0) = Some ''x''"
    by (simp add: example_reshape_step_def tensor_def step_simps)
  with a g s show ?thesis by blast
qed

subsection \<open>The concatenation kernel\<close>











text \<open>
  Beyond \<open>2 ^ 31\<close> bytes the 32-bit offset no longer holds the number of bytes copied. With
  four data inputs of \<open>2 ^ 30\<close> bytes each and an output of declared size 0, the offset
  has wrapped around to 0 after the loop, so that \<^verbatim>\<open>CHECK_EQ\<close> passes, and the emitted
  copies run past the end of the output.
\<close>

lemma DragnnConcat_offset_wraps:
  "DragnnConcat_Supports concat_wrapping_step = Inr True
   \<and> input_bytes concat_wrapping_step 4 = 2 ^ 32
   \<and> byte_size (output' concat_wrapping_step 0) = 0
   \<and> fst (concat_loop concat_wrapping_step [[], [], [], []] [0, 1, 2, 3] 0 (Inr [])) = 0
   \<and> DragnnConcat_Generate concat_wrapping_step [[], [], [], []] [] = Inl OutOfRange"
proof -
  have n: "indegree concat_wrapping_step - 1 = 4"
    by (simp add: concat_wrapping_step_def indegree_def)
  have u: "[0..<4] = [0, 1, 2, 3]"
    by (simp add: upt_rec)
  have s: "DragnnConcat_Supports concat_wrapping_step = Inr True"
    by (simp add: DragnnConcat_Supports_def concat_wrapping_step_def tensor_def
        indegree_def outdegree_def input_def)
  have b: "input_bytes concat_wrapping_step 4 = 2 ^ 32"
    unfolding input_bytes_def u
    by (simp add: concat_wrapping_step_def tensor_def input_def)
  have o: "byte_size (output' concat_wrapping_step 0) = 0"
    by (simp add: concat_wrapping_step_def tensor_def output'_def)
  have z: "byte_size (input concat_wrapping_step 0) = 2 ^ 30"
    "byte_size (input concat_wrapping_step 1) = 2 ^ 30"
    "byte_size (input concat_wrapping_step 2) = 2 ^ 30"
    "byte_size (input concat_wrapping_step 3) = 2 ^ 30"
    by (simp_all add: concat_wrapping_step_def tensor_def input_def)
  have l: "concat_loop concat_wrapping_step [[], [], [], []] [0, 1, 2, 3] 0 (Inr [])
             = (0, Inl OutOfRange)"
    unfolding concat_loop.simps Let_def z by (simp add: Copy_def)
  have g: "DragnnConcat_Generate concat_wrapping_step [[], [], [], []] [] = Inl OutOfRange"
    unfolding DragnnConcat_Generate_def Let_def n u l o by simp
  from s b o l g show ?thesis
    by simp
qed




subsection \<open>Counted loops\<close>

text \<open>
  An invariant rule for the do-while loop: with a limit \<open>n\<close> between 1 and \<open>2\<^sup>6\<^sup>4 - 1\<close>,
  the body runs for the counter values \<open>0, ..., n - 1\<close> in turn.
\<close>

lemma word64_of_nat_inj:
  "m < 2 ^ 64 \<Longrightarrow> n < 2 ^ 64 \<Longrightarrow> (word_of_nat m :: 64 word) = word_of_nat n \<longleftrightarrow> m = n"
  by (simp add: word_of_nat_eq_iff take_bit_nat_eq_self)

lemma unat_word64_of_nat: "n < 2 ^ 64 \<Longrightarrow> unat (word_of_nat n :: 64 word) = n"
  by (simp add: unat_of_nat)

lemma do_while_from:
  assumes n: "n < 2 ^ 64"
    and step: "\<And>i s. i < n \<Longrightarrow> P i s \<Longrightarrow> \<exists>s'. body (word_of_nat i) s = Inr s' \<and> P (Suc i) s'"
    and i: "i < n" and inv: "P i s"
  shows "\<exists>s'. do_while body (word_of_nat n) (word_of_nat i) s = Inr s' \<and> P n s'"
  using i inv
proof (induction "n - i" arbitrary: i s)
  case 0
  then show ?case by simp
next
  case (Suc d)
  from step [OF Suc.prems] obtain s1 where
    b: "body (word_of_nat i) s = Inr s1" and p: "P (Suc i) s1"
    by blast
  have suc: "(word_of_nat i :: 64 word) + 1 = word_of_nat (Suc i)"
    by simp
  show ?case
  proof (cases "Suc i = n")
    case True
    with b p suc show ?thesis
      by (subst do_while.simps) (simp del: of_nat_Suc)
  next
    case False
    with Suc.prems have lt: "Suc i < n" by simp
    with n have "(word_of_nat (Suc i) :: 64 word) \<noteq> word_of_nat n"
      by (simp add: word64_of_nat_inj del: of_nat_Suc)
    moreover from Suc.hyps(1) [of "Suc i" s1] Suc.hyps(2) lt p
    have "\<exists>s'. do_while body (word_of_nat n) (word_of_nat (Suc i)) s1 = Inr s' \<and> P n s'"
      by simp
    ultimately show ?thesis
      using b suc by (subst do_while.simps) (simp del: of_nat_Suc)
  qed
qed

lemma do_while_invariant:
  assumes "0 < n" and "n < 2 ^ 64"
    and "P 0 s"
    and "\<And>i s. i < n \<Longrightarrow> P i s \<Longrightarrow> \<exists>s'. body (word_of_nat i) s = Inr s' \<and> P (Suc i) s'"
  shows "\<exists>s'. do_while body (word_of_nat n) 0 s = Inr s' \<and> P n s'"
  using do_while_from [of n P body 0 s] assms by simp

subsection \<open>The weighted-collect kernel\<close>

lemma scast_32_64_negative: "(scast (w :: 32 word) :: 64 word) <s 0 \<longleftrightarrow> sint w < 0"
  by (simp add: word_sless_alt sint_scast_32_64)

lemma scast_32_64_minus_one: "(scast (w :: 32 word) :: 64 word) = - 1 \<longleftrightarrow> w = - 1"
proof
  assume "(scast w :: 64 word) = - 1"
  then have "sint (scast w :: 64 word) = sint (- 1 :: 64 word)" by simp
  then have "sint w = sint (- 1 :: 32 word)" by (simp add: sint_scast_32_64)
  then show "w = - 1" by (rule signed_word_eqI)
next
  assume "w = - 1"
  then show "(scast w :: 64 word) = - 1" by simp
qed



lemma map2_take_Suc:
  assumes "i < length xs" "i < length ys"
  shows "map2 g (take (Suc i) xs) (take (Suc i) ys) = map2 g (take i xs) (take i ys) @ [g (xs ! i) (ys ! i)]"
  using assms by (simp add: take_Suc_conv_app_nth)

lemma prefix_update:
  assumes "length A = i" "i < length R"
  shows "(A @ drop i R)[i := x] = (A @ [x]) @ drop (Suc i) R"
proof -
  have "drop i R = R ! i # drop (Suc i) R"
    using assms(2) by (simp add: Cons_nth_drop_Suc)
  then show ?thesis
    using assms(1) by (simp add: list_update_append)
qed









subsection \<open>The scalar lookup kernel\<close>

lemma lookup_add_row_loop:
  assumes d: "0 < d" "d < 2 ^ 64" "length out = d" "length erow = d"
  shows "do_while (lookup_add_elem fadd erow) (word_of_nat d) 0 out = Inr (map2 fadd out erow)"
proof -
  define P where "P r s \<longleftrightarrow> s = map2 fadd (take r out) (take r erow) @ drop r out"
    for r and s :: "'a list"
  have init: "P 0 out"
    by (simp add: P_def)
  have step: "\<exists>s'. lookup_add_elem fadd erow (word_of_nat r) s = Inr s' \<and> P (Suc r) s'"
    if r: "r < d" and inv: "P r s" for r s
  proof -
    let ?A = "map2 fadd (take r out) (take r erow)"
    have lenA: "length ?A = r"
      using r d by simp
    from inv have s: "s = ?A @ drop r out"
      by (simp add: P_def)
    have u: "unat (word_of_nat r :: 64 word) = r"
      using r d by (simp add: unat_word64_of_nat)
    have nth: "s ! r = out ! r"
      unfolding s using lenA r d by (simp add: nth_append)
    have len: "r < length s"
      unfolding s using lenA r d by simp
    have upd: "s[r := fadd (out ! r) (erow ! r)]
        = map2 fadd (take (Suc r) out) (take (Suc r) erow) @ drop (Suc r) out"
      unfolding s using r d lenA by (simp only: prefix_update map2_take_Suc)
    show ?thesis
      using r d len by (simp add: lookup_add_elem_def u nth upd P_def)
  qed
  from do_while_invariant [of d P out "lookup_add_elem fadd erow", OF d(1,2) init step]
  obtain s' where "do_while (lookup_add_elem fadd erow) (word_of_nat d) 0 out = Inr s'"
    and "P d s'"
    by blast
  then show ?thesis
    using d by (simp add: P_def)
qed

lemma sint_word64_of_int: "- (2 ^ 63) \<le> k \<Longrightarrow> k < 2 ^ 63 \<Longrightarrow> sint (word_of_int k :: 64 word) = k"
  by (simp add: sint_sbintrunc' signed_take_bit_int_eq_self)

lemma lookup_add_row_result:
  assumes "0 \<le> sint acc" "nat (sint acc) < length M"
    and "0 < d" "d < 2 ^ 64" "length out = d" "length (M ! nat (sint acc)) = d"
    and "(word_of_int dims :: 64 word) = word_of_nat d"
  shows "lookup_add_row fadd dims M acc out = Inr (map2 fadd out (M ! nat (sint acc)))"
  using assms by (simp add: lookup_add_row_def lookup_add_row_loop)

lemma oov_row:
  assumes "M \<noteq> []" and "sint (oov :: 64 word) = int (length M) - 1"
  shows "0 \<le> sint oov \<and> nat (sint oov) < length M \<and> M ! nat (sint oov) = last M"
proof -
  have pos: "0 < length M"
    using assms(1) by simp
  then have n1: "nat (int (length M) - 1) = length M - 1"
    by arith
  show ?thesis
    unfolding assms(2) n1 using assms(1) pos by (simp add: last_conv_nth)
qed

lemma lookup_feature_result:
  assumes d: "0 < d" "d < 2 ^ 64" "length out = d" "(word_of_int dims :: 64 word) = word_of_nat d"
    and M: "M \<noteq> []" "sint oov = int (length M) - 1" "\<forall>row \<in> set M. length row = d"
    and valid: "0 \<le> sint fid \<longrightarrow> nat (sint fid) < length M"
  shows "lookup_feature fadd oov dims M (scast fid) out = Inr (add_resolved_row fadd M out fid)"
proof (cases "0 \<le> sint fid")
  case True
  with valid M(3) have "nat (sint fid) < length M" "length (M ! nat (sint fid)) = d"
    by simp_all
  with True d show ?thesis
    by (simp add: lookup_feature_def add_resolved_row_def scast_32_64_negative not_less
        lookup_add_row_result sint_scast_32_64)
next
  case False
  show ?thesis
  proof (cases "fid = - 1")
    case True
    from oov_row [OF M(1,2)]
    have "0 \<le> sint oov" "nat (sint oov) < length M" "M ! nat (sint oov) = last M"
      by simp_all
    moreover have "length (last M) = d"
      using M(1,3) by simp
    ultimately have "lookup_add_row fadd dims M oov out = Inr (map2 fadd out (last M))"
      using d lookup_add_row_result [of oov M d out dims fadd] by simp
    with True show ?thesis
      by (simp add: lookup_feature_def add_resolved_row_def)
  next
    case neg: False
    with False show ?thesis
      by (simp add: lookup_feature_def add_resolved_row_def scast_32_64_negative
          scast_32_64_minus_one not_le)
  qed
qed

lemma length_add_resolved_row:
  assumes "length acc = d" "M \<noteq> []" "\<forall>row \<in> set M. length row = d"
    and "0 \<le> sint fid \<longrightarrow> nat (sint fid) < length M"
  shows "length (add_resolved_row fadd M acc fid) = d"
  using assms by (simp add: add_resolved_row_def)

lemma sum_resolved_rows_snoc:
  "sum_resolved_rows fadd M acc (ids @ [fid])
     = add_resolved_row fadd M (sum_resolved_rows fadd M acc ids) fid"
  by (simp add: sum_resolved_rows_def)

lemma length_sum_resolved_rows:
  assumes "length acc = d" "M \<noteq> []" "\<forall>row \<in> set M. length row = d"
    and "\<forall>fid \<in> set ids. 0 \<le> sint fid \<longrightarrow> nat (sint fid) < length M"
  shows "length (sum_resolved_rows fadd M acc ids) = d"
  using assms(4)
proof (induction ids rule: rev_induct)
  case Nil
  with assms(1) show ?case by (simp add: sum_resolved_rows_def)
next
  case (snoc fid ids)
  then show ?case
    using assms(2,3) by (simp add: sum_resolved_rows_snoc length_add_resolved_row)
qed

lemma lookup_loop_result:
  assumes n: "0 < n" "n < 2 ^ 64" "length ids = n"
    and d: "0 < d" "d < 2 ^ 64" "length out = d" "(word_of_int dims :: 64 word) = word_of_nat d"
    and M: "M \<noteq> []" "sint oov = int (length M) - 1" "\<forall>row \<in> set M. length row = d"
    and valid: "\<forall>fid \<in> set ids. 0 \<le> sint fid \<longrightarrow> nat (sint fid) < length M"
  shows "do_while (lookup_body fadd oov dims ids M) (word_of_nat n) 0 out
         = Inr (sum_resolved_rows fadd M out ids)"
proof -
  define P where "P c s \<longleftrightarrow> s = sum_resolved_rows fadd M out (take c ids)"
    for c and s :: "'a list"
  have init: "P 0 out"
    by (simp add: P_def sum_resolved_rows_def)
  have step: "\<exists>s'. lookup_body fadd oov dims ids M (word_of_nat c) s = Inr s' \<and> P (Suc c) s'"
    if c: "c < n" and inv: "P c s" for c s
  proof -
    from inv have s: "s = sum_resolved_rows fadd M out (take c ids)"
      by (simp add: P_def)
    have u: "unat (word_of_nat c :: 64 word) = c"
      using c n by (simp add: unat_word64_of_nat)
    have v: "\<forall>fid \<in> set (take c ids). 0 \<le> sint fid \<longrightarrow> nat (sint fid) < length M"
      using valid by (meson in_set_takeD)
    have len: "length s = d"
      unfolding s using d(3) M(1,3) v by (rule length_sum_resolved_rows)
    have mem: "ids ! c \<in> set ids"
      using c n by simp
    have vc: "0 \<le> sint (ids ! c) \<longrightarrow> nat (sint (ids ! c)) < length M"
      using valid mem by blast
    have f: "lookup_feature fadd oov dims M (scast (ids ! c)) s
               = Inr (add_resolved_row fadd M s (ids ! c))"
      by (rule lookup_feature_result [OF d(1,2) len d(4) M vc])
    have tk: "take (Suc c) ids = take c ids @ [ids ! c]"
      using c n by (simp add: take_Suc_conv_app_nth)
    have "P (Suc c) (add_resolved_row fadd M s (ids ! c))"
      unfolding P_def tk sum_resolved_rows_snoc s ..
    with f u c n show ?thesis
      by (simp add: lookup_body_def)
  qed
  from do_while_invariant [of n P out "lookup_body fadd oov dims ids M", OF n(1,2) init step]
  obtain s' where "do_while (lookup_body fadd oov dims ids M) (word_of_nat n) 0 out = Inr s'"
    and "P n s'"
    by blast
  then show ?thesis
    using n by (simp add: P_def)
qed

lemma Supports_lookup_iff:
  "DragnnLookup_Supports step \<longleftrightarrow>
     indegree step = 2 \<and> outdegree step = 1
     \<and> type (input step 0) = DT_INT32
     \<and> type (input step 1) = DT_FLOAT \<and> rank (input step 1) = 2
     \<and> type (output' step 0) = DT_FLOAT \<and> rank (output' step 0) = 2
     \<and> dim (output' step 0) 0 = 1
     \<and> dim (output' step 0) 1 = dim (input step 1) 1"
  by (simp add: DragnnLookup_Supports_def Let_def) linarith

lemma word64_of_int_nat: "0 \<le> k \<Longrightarrow> (word_of_int k :: 64 word) = word_of_nat (nat k)"
  by (simp add: word_of_int_nat [symmetric])

lemma DragnnLookup_Generate_sum:
  assumes sup: "DragnnLookup_Supports step"
    and f: "2 \<le> rank (input step 0)"
    and n: "0 < dim (input step 0) 1" "dim (input step 0) 1 < 2 ^ 31"
      "length ids = nat (dim (input step 0) 1)"
    and d: "0 < dim (input step 1) 1" "dim (input step 1) 1 < 2 ^ 31"
      "length out = nat (dim (output' step 0) 1)"
    and M: "0 < dim (input step 1) 0" "dim (input step 1) 0 < 2 ^ 31"
      "length Mrows = nat (dim (input step 1) 0)"
      "\<forall>row \<in> set Mrows. length row = nat (dim (input step 1) 1)"
    and valid: "\<forall>fid \<in> set ids. 0 \<le> sint fid \<longrightarrow> nat (sint fid) < length Mrows"
  shows "DragnnLookup_Generate fadd step ids Mrows out
           = Inr (sum_resolved_rows fadd Mrows out ids)"
proof -
  let ?n = "nat (dim (input step 0) 1)"
  let ?d = "nat (dim (input step 1) 1)"
  define oov :: "64 word" where "oov = word_of_int (dim (input step 1) 0 - 1)"
  define lim :: "64 word" where "lim = word_of_int (dim (input step 0) 1)"
  from sup have vd: "dim (output' step 0) 1 = dim (input step 1) 1"
    by (simp add: Supports_lookup_iff)
  have "DragnnLookup_Generate fadd step ids Mrows out
      = do_while (lookup_body fadd oov (dim (output' step 0) 1) ids Mrows) lim 0 out"
    unfolding oov_def lim_def using f by (simp add: DragnnLookup_Generate_def Let_def)
  then have gen: "DragnnLookup_Generate fadd step ids Mrows out
      = do_while (lookup_body fadd oov (dim (input step 1) 1) ids Mrows) lim 0 out"
    unfolding vd .
  have lim: "lim = word_of_nat ?n"
    unfolding lim_def using n(1) by (intro word64_of_int_nat) simp
  have so: "sint oov = int (length Mrows) - 1"
  proof -
    have "sint oov = dim (input step 1) 0 - 1"
      unfolding oov_def using M(1,2) by (intro sint_word64_of_int) simp_all
    with M(1,3) show ?thesis by simp
  qed
  have "do_while (lookup_body fadd oov (dim (input step 1) 1) ids Mrows) (word_of_nat ?n) 0 out
         = Inr (sum_resolved_rows fadd Mrows out ids)"
  proof (rule lookup_loop_result [where d = ?d])
    show "0 < ?n" "?n < 2 ^ 64" using n by simp_all
    show "0 < ?d" "?d < 2 ^ 64" using d by simp_all
    show "length out = ?d" using d(3) vd by simp
    show "Mrows \<noteq> []" using M(1,3) by auto
    show "(word_of_int (dim (input step 1) 1) :: 64 word) = word_of_nat ?d"
      using d(1) by (intro word64_of_int_nat) simp
    show "sint oov = int (length Mrows) - 1" by (rule so)
  qed (use n M valid in simp_all)
  then show ?thesis
    unfolding gen lim .
qed

subsection \<open>The unrolled lookup kernel\<close>

lemma length_blocks_of [simp]: "length (blocks_of b v) = b"
  by (simp add: blocks_of_def)

lemma nth_blocks_of: "i < b \<Longrightarrow> blocks_of b v ! i = take 8 (drop (i * 8) v)"
  by (simp add: blocks_of_def)

lemma blocks_of_zero: "replicate b (replicate 8 z) = blocks_of b (replicate (b * 8) z)"
proof (rule nth_equalityI)
  show "length (replicate b (replicate 8 z)) = length (blocks_of b (replicate (b * 8) z))"
    by simp
next
  fix i assume "i < length (replicate b (replicate 8 z))"
  then have i: "i < b" by simp
  then have "8 \<le> b * 8 - i * 8"
    by arith
  then have "min (b * 8 - i * 8) 8 = 8" by simp
  with i show "replicate b (replicate 8 z) ! i = blocks_of b (replicate (b * 8) z) ! i"
    by (simp add: nth_blocks_of)
qed

lemma block_map2:
  "map2 fadd (take 8 (drop k acc)) (take 8 (drop k erow)) = take 8 (drop k (map2 fadd acc erow))"
  by (simp add: take_map drop_map take_zip drop_zip)

lemma unrolled_add_from:
  assumes "length S = b" "b * 8 \<le> length erow" "k \<le> b"
  shows "unrolled_add fadd erow [k..<b] S
           = Inr (take k S @ map (\<lambda>i. map2 fadd (S ! i) (take 8 (drop (i * 8) erow))) [k..<b])"
  using assms(3,1)
proof (induction "b - k" arbitrary: k S)
  case 0
  then show ?case by simp
next
  case (Suc m)
  then have k: "k < b" by simp
  have upt: "[k..<b] = k # [Suc k..<b]"
    using k by (simp add: upt_conv_Cons)
  have fits: "k * 8 + 8 \<le> length erow"
    using k assms(2) by arith
  let ?S' = "S[k := map2 fadd (S ! k) (take 8 (drop (k * 8) erow))]"
  have ih: "unrolled_add fadd erow [Suc k..<b] ?S'
      = Inr (take (Suc k) ?S' @ map (\<lambda>i. map2 fadd (?S' ! i) (take 8 (drop (i * 8) erow))) [Suc k..<b])"
    using Suc.hyps(1) [of "Suc k" ?S'] Suc.hyps(2) k Suc.prems by simp
  have t: "take (Suc k) ?S' = take k S @ [map2 fadd (S ! k) (take 8 (drop (k * 8) erow))]"
    using k Suc.prems(2) by (simp add: take_Suc_conv_app_nth)
  have m: "map (\<lambda>i. map2 fadd (?S' ! i) (take 8 (drop (i * 8) erow))) [Suc k..<b]
      = map (\<lambda>i. map2 fadd (S ! i) (take 8 (drop (i * 8) erow))) [Suc k..<b]"
    by (rule map_cong) simp_all
  show ?case
    using k fits Suc.prems(2) by (simp add: upt ih t m kBlockSize_def)
qed

lemma unrolled_add_blocks:
  assumes "length acc = b * 8" "length erow = b * 8"
  shows "unrolled_add fadd erow [0..<b] (blocks_of b acc)
           = Inr (blocks_of b (map2 fadd acc erow))"
proof -
  have "unrolled_add fadd erow [0..<b] (blocks_of b acc)
      = Inr (map (\<lambda>i. map2 fadd (blocks_of b acc ! i) (take 8 (drop (i * 8) erow))) [0..<b])"
    using unrolled_add_from [of "blocks_of b acc" b erow 0 fadd] assms by simp
  moreover have "map (\<lambda>i. map2 fadd (blocks_of b acc ! i) (take 8 (drop (i * 8) erow))) [0..<b]
      = blocks_of b (map2 fadd acc erow)"
    unfolding blocks_of_def [of b "map2 fadd acc erow"]
    by (rule map_cong) (simp_all add: nth_blocks_of block_map2)
  ultimately show ?thesis by simp
qed

lemma unrolled_store_from:
  assumes "length v = b * 8" "length out = b * 8" "k \<le> b"
  shows "unrolled_store [k..<b] (blocks_of b v) (take (k * 8) v @ drop (k * 8) out) = Inr v"
  using assms(3)
proof (induction "b - k" arbitrary: k)
  case 0
  with assms(1,2) show ?case by simp
next
  case (Suc m)
  then have k: "k < b" by simp
  have upt: "[k..<b] = k # [Suc k..<b]"
    using k by (simp add: upt_conv_Cons)
  have fits: "k * 8 + 8 \<le> b * 8"
    using k by arith
  let ?o = "take (k * 8) v @ drop (k * 8) out"
  have lo: "length ?o = b * 8"
    using assms(1,2) fits by simp
  have c: "Copy ?o (k * 8) (blocks_of b v ! k) 0 8
      = Inr (take (Suc k * 8) v @ drop (Suc k * 8) out)"
  proof -
    have bl: "blocks_of b v ! k = take 8 (drop (k * 8) v)" "length (take 8 (drop (k * 8) v)) = 8"
      using k assms(1) fits by (simp_all add: nth_blocks_of)
    have "take (k * 8) ?o = take (k * 8) v"
      using assms(1) fits by simp
    moreover have "drop (k * 8 + 8) ?o = drop (Suc k * 8) out"
      using assms(1) fits by (simp add: add.commute)
    moreover have "take (k * 8) v @ take 8 (drop (k * 8) v) = take (Suc k * 8) v"
      by (simp add: take_add [symmetric] add.commute)
    ultimately show ?thesis
      using lo fits bl by (simp add: Copy_def)
  qed
  from Suc.hyps(1) [of "Suc k"] Suc.hyps(2) k
  have "unrolled_store [Suc k..<b] (blocks_of b v) (take (Suc k * 8) v @ drop (Suc k * 8) out) = Inr v"
    by simp
  with c k show ?case
    by (simp add: upt kBlockSize_def)
qed

lemma unrolled_store_blocks:
  assumes "length v = b * 8" "length out = b * 8"
  shows "unrolled_store [0..<b] (blocks_of b v) out = Inr v"
  using unrolled_store_from [OF assms, of 0] by simp

lemma unrolled_add_row_result:
  assumes "0 \<le> sint acc" "nat (sint acc) < length M"
    and "length v = b * 8" "length (M ! nat (sint acc)) = b * 8"
  shows "unrolled_add_row fadd (int b) M acc (blocks_of b v)
           = Inr (blocks_of b (map2 fadd v (M ! nat (sint acc))))"
  using assms by (simp add: unrolled_add_row_def unrolled_add_blocks)

lemma unrolled_feature_result:
  assumes v: "length v = b * 8"
    and M: "M \<noteq> []" "sint oov = int (length M) - 1" "\<forall>row \<in> set M. length row = b * 8"
    and valid: "0 \<le> sint fid \<longrightarrow> nat (sint fid) < length M"
  shows "unrolled_feature fadd oov (int b) M (scast fid) (blocks_of b v)
           = Inr (blocks_of b (add_resolved_row fadd M v fid))"
proof (cases "0 \<le> sint fid")
  case True
  with valid M(3) have "nat (sint fid) < length M" "length (M ! nat (sint fid)) = b * 8"
    by simp_all
  with True v show ?thesis
    by (simp add: unrolled_feature_def add_resolved_row_def scast_32_64_negative not_less
        unrolled_add_row_result sint_scast_32_64)
next
  case False
  show ?thesis
  proof (cases "fid = - 1")
    case True
    from oov_row [OF M(1,2)]
    have "0 \<le> sint oov" "nat (sint oov) < length M" "M ! nat (sint oov) = last M"
      by simp_all
    moreover have "length (last M) = b * 8"
      using M(1,3) by simp
    ultimately have "unrolled_add_row fadd (int b) M oov (blocks_of b v)
        = Inr (blocks_of b (map2 fadd v (last M)))"
      using v unrolled_add_row_result [of oov M v b fadd] by simp
    with True show ?thesis
      by (simp add: unrolled_feature_def add_resolved_row_def)
  next
    case neg: False
    with False show ?thesis
      by (simp add: unrolled_feature_def add_resolved_row_def scast_32_64_negative
          scast_32_64_minus_one not_le)
  qed
qed

lemma unrolled_loop_result:
  assumes n: "0 < n" "n < 2 ^ 64" "length ids = n"
    and v: "length v = b * 8"
    and M: "M \<noteq> []" "sint oov = int (length M) - 1" "\<forall>row \<in> set M. length row = b * 8"
    and valid: "\<forall>fid \<in> set ids. 0 \<le> sint fid \<longrightarrow> nat (sint fid) < length M"
  shows "do_while (unrolled_body fadd oov (int b) ids M) (word_of_nat n) 0 (blocks_of b v)
         = Inr (blocks_of b (sum_resolved_rows fadd M v ids))"
proof -
  define P where "P c s \<longleftrightarrow> s = blocks_of b (sum_resolved_rows fadd M v (take c ids))"
    for c and s :: "'a list list"
  have init: "P 0 (blocks_of b v)"
    by (simp add: P_def sum_resolved_rows_def)
  have step: "\<exists>s'. unrolled_body fadd oov (int b) ids M (word_of_nat c) s = Inr s' \<and> P (Suc c) s'"
    if c: "c < n" and inv: "P c s" for c s
  proof -
    let ?acc = "sum_resolved_rows fadd M v (take c ids)"
    from inv have s: "s = blocks_of b ?acc"
      by (simp add: P_def)
    have u: "unat (word_of_nat c :: 64 word) = c"
      using c n by (simp add: unat_word64_of_nat)
    have vt: "\<forall>fid \<in> set (take c ids). 0 \<le> sint fid \<longrightarrow> nat (sint fid) < length M"
      using valid by (meson in_set_takeD)
    have len: "length ?acc = b * 8"
      using v M(1,3) vt by (rule length_sum_resolved_rows)
    have mem: "ids ! c \<in> set ids"
      using c n by simp
    have vc: "0 \<le> sint (ids ! c) \<longrightarrow> nat (sint (ids ! c)) < length M"
      using valid mem by blast
    have f: "unrolled_feature fadd oov (int b) M (scast (ids ! c)) (blocks_of b ?acc)
               = Inr (blocks_of b (add_resolved_row fadd M ?acc (ids ! c)))"
      by (rule unrolled_feature_result [OF len M vc])
    have tk: "take (Suc c) ids = take c ids @ [ids ! c]"
      using c n by (simp add: take_Suc_conv_app_nth)
    have "P (Suc c) (blocks_of b (add_resolved_row fadd M ?acc (ids ! c)))"
      unfolding P_def tk sum_resolved_rows_snoc ..
    with f u c n show ?thesis
      by (simp add: unrolled_body_def s)
  qed
  from do_while_invariant [of n P "blocks_of b v" "unrolled_body fadd oov (int b) ids M",
      OF n(1,2) init step]
  obtain s' where "do_while (unrolled_body fadd oov (int b) ids M) (word_of_nat n) 0
      (blocks_of b v) = Inr s'"
    and "P n s'"
    by blast
  then show ?thesis
    using n by (simp add: P_def)
qed

lemma sdiv_8_nonneg: "0 \<le> k \<Longrightarrow> k sdiv 8 = k div 8" for k :: int
  by (simp add: signed_divide_int_def sgn_if)

lemma DragnnLookupUnrolled_Generate_sum:
  assumes sup: "DragnnLookupUnrolled_Supports avx step"
    and f: "2 \<le> rank (input step 0)"
    and n: "0 < dim (input step 0) 1" "dim (input step 0) 1 < 2 ^ 31"
      "length ids = nat (dim (input step 0) 1)"
    and d: "0 < dim (input step 1) 1"
      "length out = nat (dim (output' step 0) 1)"
    and M: "0 < dim (input step 1) 0" "dim (input step 1) 0 < 2 ^ 31"
      "length Mrows = nat (dim (input step 1) 0)"
      "\<forall>row \<in> set Mrows. length row = nat (dim (input step 1) 1)"
    and valid: "\<forall>fid \<in> set ids. 0 \<le> sint fid \<longrightarrow> nat (sint fid) < length Mrows"
  shows "DragnnLookupUnrolled_Generate fadd fzero step ids Mrows out
           = Inr (sum_resolved_rows fadd Mrows (replicate (length out) fzero) ids)"
proof -
  let ?n = "nat (dim (input step 0) 1)"
  let ?dims = "dim (input step 1) 1"
  define b where "b = nat (?dims div 8)"
  define oov :: "64 word" where "oov = word_of_int (dim (input step 1) 0 - 1)"
  define lim :: "64 word" where "lim = word_of_int (dim (input step 0) 1)"
  from sup have s: "DragnnLookup_Supports step" "8 dvd ?dims"
    by (simp_all add: DragnnLookupUnrolled_Supports_def DragnnLookup_Supports_def Let_def
        kBlockSize_def smod_8_dvd split: if_splits)
  from s(1) have vd: "dim (output' step 0) 1 = ?dims"
    by (simp add: Supports_lookup_iff)
  have b8: "b * 8 = nat ?dims"
    unfolding b_def using s(2) d(1) by (auto simp: dvd_def)
  have blocks: "?dims sdiv kBlockSize = int b"
    unfolding b_def kBlockSize_def using d(1) by (simp add: sdiv_8_nonneg)
  have k8: "nat kBlockSize = 8"
    by (simp add: kBlockSize_def)
  have lo: "length out = b * 8"
    using d(2) vd b8 by simp
  have "DragnnLookupUnrolled_Generate fadd fzero step ids Mrows out
      = (case do_while (unrolled_body fadd oov (dim (output' step 0) 1 sdiv kBlockSize) ids Mrows)
                lim 0 (replicate (nat (dim (output' step 0) 1 sdiv kBlockSize))
                         (replicate (nat kBlockSize) fzero)) of
           Inl e \<Rightarrow> Inl e
         | Inr sum_out \<Rightarrow>
             unrolled_store [0..<nat (dim (output' step 0) 1 sdiv kBlockSize)] sum_out out)"
  proof -
    have nf: "\<not> rank (input step 0) < 2"
      using f by simp
    show ?thesis
      unfolding DragnnLookupUnrolled_Generate_def Let_def oov_def lim_def
      by (simp only: nf if_False)
  qed
  then have gen: "DragnnLookupUnrolled_Generate fadd fzero step ids Mrows out
      = (case do_while (unrolled_body fadd oov (int b) ids Mrows) lim 0
                (blocks_of b (replicate (b * 8) fzero)) of
           Inl e \<Rightarrow> Inl e
         | Inr sum_out \<Rightarrow> unrolled_store [0..<b] sum_out out)"
    unfolding vd blocks k8 by (simp only: nat_int blocks_of_zero)
  have lim: "lim = word_of_nat ?n"
    unfolding lim_def using n(1) by (intro word64_of_int_nat) simp
  have so: "sint oov = int (length Mrows) - 1"
  proof -
    have "sint oov = dim (input step 1) 0 - 1"
      unfolding oov_def using M(1,2) by (intro sint_word64_of_int) simp_all
    with M(1,3) show ?thesis by simp
  qed
  let ?z = "replicate (b * 8) fzero"
  have loop: "do_while (unrolled_body fadd oov (int b) ids Mrows) (word_of_nat ?n) 0 (blocks_of b ?z)
         = Inr (blocks_of b (sum_resolved_rows fadd Mrows ?z ids))"
  proof (rule unrolled_loop_result)
    show "0 < ?n" "?n < 2 ^ 64" using n by simp_all
    show "Mrows \<noteq> []" using M(1,3) by auto
    show "sint oov = int (length Mrows) - 1" by (rule so)
    show "\<forall>row \<in> set Mrows. length row = b * 8" using M(4) b8 by simp
  qed (use n valid in simp_all)
  have len: "length (sum_resolved_rows fadd Mrows ?z ids) = b * 8"
  proof (rule length_sum_resolved_rows)
    show "Mrows \<noteq> []" using M(1,3) by auto
    show "\<forall>row \<in> set Mrows. length row = b * 8" using M(4) b8 by simp
  qed (use valid in simp_all)
  show ?thesis
    unfolding gen lim loop using len lo by (simp add: unrolled_store_blocks)
qed

subsection \<open>The lookup kernels on an example\<close>

lemma example_lookup8_Supports:
  "DragnnLookupUnrolled_Supports True example_lookup8_step"
  "DragnnLookup_Supports example_lookup8_step"
  by (simp_all add: DragnnLookupUnrolled_Supports_def DragnnLookup_Supports_def
      example_lookup8_step_def tensor_def step_simps Let_def kMaxEmbeddingDim_def
      kBlockSize_def signed_modulo_int_def)

lemma example_lookup8_rank: "2 \<le> rank (input example_lookup8_step 0)"
  by (simp add: example_lookup8_step_def tensor_def step_simps)

lemma example_lookup8_features:
  "0 < dim (input example_lookup8_step 0) 1"
  "dim (input example_lookup8_step 0) 1 < 2 ^ 31"
  "length [1, - 1, - 7 :: 32 word] = nat (dim (input example_lookup8_step 0) 1)"
  by (simp_all add: example_lookup8_step_def tensor_def step_simps)

lemma example_lookup8_dims:
  "0 < dim (input example_lookup8_step 1) 1"
  "dim (input example_lookup8_step 1) 1 < 2 ^ 31"
  by (simp_all add: example_lookup8_step_def tensor_def step_simps)

lemma example_lookup8_output:
  "length out = 8 \<Longrightarrow> length out = nat (dim (output' example_lookup8_step 0) 1)"
  by (simp add: example_lookup8_step_def tensor_def step_simps)

lemma example_lookup8_matrix:
  "0 < dim (input example_lookup8_step 1) 0"
  "dim (input example_lookup8_step 1) 0 < 2 ^ 31"
  "length example_embeddings = nat (dim (input example_lookup8_step 1) 0)"
  "\<forall>row \<in> set example_embeddings. length row = nat (dim (input example_lookup8_step 1) 1)"
  by (simp_all add: example_lookup8_step_def tensor_def step_simps example_embeddings_def)

lemma example_ids_valid:
  "\<forall>fid \<in> set [1, - 1, - 7 :: 32 word].
     0 \<le> sint fid \<longrightarrow> nat (sint fid) < length example_embeddings"
  by (simp add: example_embeddings_def)

lemma example_sums:
  "sum_resolved_rows (+) example_embeddings [0, 0, 0, 0, 0, 0, 0, 0] [1, - 1, - 7]
     = [110, 220, 330, 440, 550, 660, 770, 880]"
  "sum_resolved_rows (+) example_embeddings
       [1000, 1000, 1000, 1000, 1000, 1000, 1000, 1000] [1, - 1, - 7]
     = [1110, 1220, 1330, 1440, 1550, 1660, 1770, 1880]"
  by (simp_all add: sum_resolved_rows_def add_resolved_row_def example_embeddings_def)

lemma replicate_8: "replicate 8 x = [x, x, x, x, x, x, x, x]"
  by (simp add: eval_nat_numeral)

lemma example_scalar_run:
  assumes "length out = 8"
  shows "DragnnLookup_Generate (+) example_lookup8_step [1, - 1, - 7] example_embeddings out
     = Inr (sum_resolved_rows (+) example_embeddings out [1, - 1, - 7])"
  by (rule DragnnLookup_Generate_sum [OF example_lookup8_Supports(2) example_lookup8_rank
        example_lookup8_features example_lookup8_dims example_lookup8_output [OF assms]
        example_lookup8_matrix example_ids_valid])

lemma example_unrolled_run:
  assumes "length out = 8"
  shows "DragnnLookupUnrolled_Generate (+) 0 example_lookup8_step [1, - 1, - 7]
       example_embeddings out
     = Inr (sum_resolved_rows (+) example_embeddings [0, 0, 0, 0, 0, 0, 0, 0] [1, - 1, - 7])"
  using DragnnLookupUnrolled_Generate_sum [OF example_lookup8_Supports(1) example_lookup8_rank
        example_lookup8_features example_lookup8_dims(1) example_lookup8_output [OF assms]
        example_lookup8_matrix example_ids_valid, of "(+)" 0] assms
  by (simp add: replicate_8)

text \<open>
  Claim C1 says that the code emitted by the scalar kernel first zeroes the output vector,
  so that the final output is the sum of the resolved rows. The emitted code has no
  instruction that clears the output: on an output that holds 1000.0 in every element on
  entry, with the feature ids 1, \<open>-1\<close> and \<open>-7\<close>, it leaves 1000.0 plus the sum of
  the resolved rows in every element, not the sum. The step is one that
  \<^verbatim>\<open>DragnnLookup::Supports\<close> accepts (lemma \<open>example_lookup8_Supports\<close>).
\<close>

theorem DragnnLookup_adds_to_old_output:
  "DragnnLookup_Generate (+) example_lookup8_step [1, - 1, - 7] example_embeddings
         [1000, 1000, 1000, 1000, 1000, 1000, 1000, 1000]
       = Inr [1110, 1220, 1330, 1440, 1550, 1660, 1770, 1880]
   \<and> sum_resolved_rows (+) example_embeddings [0, 0, 0, 0, 0, 0, 0, 0] [1, - 1, - 7]
       = [110, 220, 330, 440, 550, 660, 770, 880]"
  using example_scalar_run [of "[1000, 1000, 1000, 1000, 1000, 1000, 1000, 1000]"]
  by (simp add: example_sums)

text \<open>
  Apart from the clearing, the scalar kernel does what is described. On a step that
  \<^verbatim>\<open>DragnnLookup::Supports\<close> accepts, with at least one feature id, an embedding dimension
  of at least 1, tensors with the contents their shapes declare, and feature ids that are
  row indices of the embedding matrix, \<open>-1\<close>, or less than \<open>-1\<close>: for each feature id
  in turn the emitted code adds the resolved embedding row element by element to the
  output, where the id \<open>-1\<close> resolves to the trailing OOV row, any id below \<open>-1\<close> is
  skipped, and an id that is not negative resolves to the row at that index. The final
  output is the output on entry with the resolved rows added in feature order; it is the
  sum of the resolved rows when the output is zero on entry.
\<close>

theorem DragnnLookup_adds_resolved_rows:
  assumes "DragnnLookup_Supports step"
    and "2 \<le> rank (input step 0)"
    and "0 < dim (input step 0) 1" "dim (input step 0) 1 < 2 ^ 31"
      "length ids = nat (dim (input step 0) 1)"
    and "0 < dim (input step 1) 1" "dim (input step 1) 1 < 2 ^ 31"
      "length out = nat (dim (output' step 0) 1)"
    and "0 < dim (input step 1) 0" "dim (input step 1) 0 < 2 ^ 31"
      "length Mrows = nat (dim (input step 1) 0)"
      "\<forall>row \<in> set Mrows. length row = nat (dim (input step 1) 1)"
    and "\<forall>fid \<in> set ids. 0 \<le> sint fid \<longrightarrow> nat (sint fid) < length Mrows"
  shows "DragnnLookup_Generate fadd step ids Mrows out
           = Inr (foldl (\<lambda>acc fid.
                           if 0 \<le> sint fid then map2 fadd acc (Mrows ! nat (sint fid))
                           else if fid = - 1 then map2 fadd acc (last Mrows)
                           else acc) out ids)"
proof -
  have "sum_resolved_rows fadd Mrows out ids
      = foldl (\<lambda>acc fid.
                 if 0 \<le> sint fid then map2 fadd acc (Mrows ! nat (sint fid))
                 else if fid = - 1 then map2 fadd acc (last Mrows)
                 else acc) out ids"
    unfolding sum_resolved_rows_def
    by (rule arg_cong [where f = "\<lambda>g. foldl g out ids"]) (intro ext, simp add: add_resolved_row_def)
  with DragnnLookup_Generate_sum [OF assms, of fadd] show ?thesis
    by simp
qed

theorem DragnnLookup_adds_resolved_rows_witness:
  "DragnnLookup_Supports example_lookup8_step
   \<and> DragnnLookup_Generate (+) example_lookup8_step [1, - 1, - 7] example_embeddings
         [0, 0, 0, 0, 0, 0, 0, 0]
       = Inr [110, 220, 330, 440, 550, 660, 770, 880]"
proof -
  have len: "length [0, 0, 0, 0, 0, 0, 0, 0 :: int] = 8"
    by simp
  from DragnnLookup_adds_resolved_rows [OF example_lookup8_Supports(2) example_lookup8_rank
        example_lookup8_features example_lookup8_dims example_lookup8_output [OF len]
        example_lookup8_matrix example_ids_valid, of "(+)"]
  show ?thesis
    by (simp add: example_lookup8_Supports example_embeddings_def)
qed

text \<open>
  Claim C2 says that the scalar kernel and the unrolled kernel agree, up to rounding, on
  every input on which the unrolled kernel is applicable. On a step that
  \<^verbatim>\<open>DragnnLookupUnrolled::Supports\<close> accepts with AVX enabled (lemma
  \<open>example_lookup8_Supports\<close>) and an output that holds 1000.0 in every element on entry
  they disagree by 1000.0 in every element: the scalar kernel adds to the old contents of
  the output and the unrolled kernel, which clears its accumulators, overwrites them.
\<close>

theorem DragnnLookup_kernels_differ_on_old_output:
  "DragnnLookup_Generate (+) example_lookup8_step [1, - 1, - 7] example_embeddings
         [1000, 1000, 1000, 1000, 1000, 1000, 1000, 1000]
       = Inr [1110, 1220, 1330, 1440, 1550, 1660, 1770, 1880]
   \<and> DragnnLookupUnrolled_Generate (+) 0 example_lookup8_step [1, - 1, - 7] example_embeddings
         [1000, 1000, 1000, 1000, 1000, 1000, 1000, 1000]
       = Inr [110, 220, 330, 440, 550, 660, 770, 880]"
  using example_scalar_run [of "[1000, 1000, 1000, 1000, 1000, 1000, 1000, 1000]"]
    example_unrolled_run [of "[1000, 1000, 1000, 1000, 1000, 1000, 1000, 1000]"]
  by (simp add: example_sums)

text \<open>
  From a zero output the two kernels agree. For every input on which
  \<^verbatim>\<open>DragnnLookupUnrolled::Supports\<close> holds,
  with at least one feature id, an embedding dimension of at least 8, tensors with the
  contents their shapes declare and feature ids that are row indices, \<open>-1\<close> or less than
  \<open>-1\<close>: the unrolled kernel, whatever the output holds on entry, and the scalar kernel,
  run on an output that is zero on entry, leave the same result, the resolved embedding
  rows added to zero in feature order. Both resolve each feature id in the same way, and
  each element receives the same addends in the same order, so the results agree whatever
  the float addition is.
\<close>

theorem DragnnLookupUnrolled_agrees_on_zero_output:
  assumes "DragnnLookupUnrolled_Supports avx step"
    and "2 \<le> rank (input step 0)"
    and "0 < dim (input step 0) 1" "dim (input step 0) 1 < 2 ^ 31"
      "length ids = nat (dim (input step 0) 1)"
    and "0 < dim (input step 1) 1"
      "length out = nat (dim (output' step 0) 1)"
    and "0 < dim (input step 1) 0" "dim (input step 1) 0 < 2 ^ 31"
      "length Mrows = nat (dim (input step 1) 0)"
      "\<forall>row \<in> set Mrows. length row = nat (dim (input step 1) 1)"
    and "\<forall>fid \<in> set ids. 0 \<le> sint fid \<longrightarrow> nat (sint fid) < length Mrows"
  shows "DragnnLookupUnrolled_Generate fadd fzero step ids Mrows out
           = Inr (sum_resolved_rows fadd Mrows (replicate (length out) fzero) ids)
         \<and> DragnnLookup_Generate fadd step ids Mrows (replicate (length out) fzero)
           = Inr (sum_resolved_rows fadd Mrows (replicate (length out) fzero) ids)"
proof -
  from assms(1) have s: "DragnnLookup_Supports step" "dim (input step 1) 1 \<le> 128"
    by (simp_all add: DragnnLookupUnrolled_Supports_def DragnnLookup_Supports_def Let_def
        kBlockSize_def kMaxEmbeddingDim_def split: if_splits)
  have "DragnnLookup_Generate fadd step ids Mrows (replicate (length out) fzero)
      = Inr (sum_resolved_rows fadd Mrows (replicate (length out) fzero) ids)"
    by (rule DragnnLookup_Generate_sum) (use s assms in simp_all)
  moreover have "DragnnLookupUnrolled_Generate fadd fzero step ids Mrows out
           = Inr (sum_resolved_rows fadd Mrows (replicate (length out) fzero) ids)"
    by (rule DragnnLookupUnrolled_Generate_sum [OF assms])
  ultimately show ?thesis by simp
qed

theorem DragnnLookupUnrolled_agrees_on_zero_output_witness:
  "DragnnLookupUnrolled_Supports True example_lookup8_step
   \<and> DragnnLookupUnrolled_Generate (+) 0 example_lookup8_step [1, - 1, - 7] example_embeddings
         [5, 5, 5, 5, 5, 5, 5, 5]
       = Inr [110, 220, 330, 440, 550, 660, 770, 880]
   \<and> DragnnLookup_Generate (+) example_lookup8_step [1, - 1, - 7] example_embeddings
         [0, 0, 0, 0, 0, 0, 0, 0]
       = Inr [110, 220, 330, 440, 550, 660, 770, 880]"
proof -
  have len: "length [5, 5, 5, 5, 5, 5, 5, 5 :: int] = 8"
    by simp
  from DragnnLookupUnrolled_agrees_on_zero_output [OF example_lookup8_Supports(1)
        example_lookup8_rank example_lookup8_features example_lookup8_dims(1)
        example_lookup8_output [OF len] example_lookup8_matrix example_ids_valid, of "(+)" 0]
  show ?thesis
    by (simp add: replicate_8 example_lookup8_Supports example_sums)
qed

end
